theory Spec2Isabelle
  imports Complex_Main
begin

section \<open>Data model (types/business.ts)\<close>

text \<open>
  The interface \<^verbatim>\<open>BusinessInfo\<close>. An optional property is an \<open>option\<close>; the type
  variable \<open>'n\<close> stands for JavaScript's \<^verbatim>\<open>number\<close>, whose arithmetic is never used
  by the code modelled here. The properties typed \<^verbatim>\<open>any\<close> (hours, research, apollo)
  are carried as text.
\<close>

record 'n BusinessInfo =
  name :: string
  address :: "string option"
  phone :: "string option"
  website :: "string option"
  description :: "string option"
  hours :: "string option"
  coordinates :: "('n \<times> 'n) option"
  screenshot :: "string option"
  imageUrl :: "string option"
  research :: "string option"
  apollo :: "string option"
  googlePlaceId :: "string option"

section \<open>Strings\<close>

text \<open>\<^verbatim>\<open>s.startsWith(t)\<close> and \<^verbatim>\<open>s.includes(t)\<close> of JavaScript, by scanning \<open>s\<close> from the left.\<close>

fun startsWith :: "string \<Rightarrow> string \<Rightarrow> bool" where
  "startsWith s [] = True"
| "startsWith [] (c # t) = False"
| "startsWith (d # s) (c # t) = (d = c \<and> startsWith s t)"

fun includes_str :: "string \<Rightarrow> string \<Rightarrow> bool" where
  "includes_str [] t = (t = [])"
| "includes_str (c # s) t = (startsWith (c # s) t \<or> includes_str s t)"

text \<open>
  \<^verbatim>\<open>s.replace(t, '')\<close> with a string pattern: the first occurrence of \<open>t\<close> is removed,
  the rest of \<open>s\<close> is kept.
\<close>

fun replace_first :: "string \<Rightarrow> string \<Rightarrow> string" where
  "replace_first [] t = []"
| "replace_first (c # s) t =
     (if startsWith (c # s) t then drop (length t) (c # s) else c # replace_first s t)"

text \<open>JavaScript's truthiness of an optional string: \<^verbatim>\<open>undefined\<close> and \<^verbatim>\<open>''\<close> are falsy.\<close>

definition truthy :: "string option \<Rightarrow> bool" where
  "truthy v = (case v of None \<Rightarrow> False | Some s \<Rightarrow> s \<noteq> [])"

section \<open>Session Controller: the capture effect (App.tsx)\<close>

text \<open>
  The predicate handed to \<^verbatim>\<open>savedBusinesses.find\<close>:
  \<^verbatim>\<open>b.name === currentBusiness.name &&
    (b.address === currentBusiness.address || (!b.address && !currentBusiness.address))\<close>
\<close>

definition sameBusiness :: "'n BusinessInfo \<Rightarrow> 'n BusinessInfo \<Rightarrow> bool" where
  "sameBusiness cur b =
     (name b = name cur \<and>
      (address b = address cur \<or> (\<not> truthy (address b) \<and> \<not> truthy (address cur))))"

text \<open>\<^verbatim>\<open>businessExistsInState\<close>: the result of \<^verbatim>\<open>find\<close>, an element or \<^verbatim>\<open>undefined\<close>.\<close>

definition businessExistsInState :: "'n BusinessInfo list \<Rightarrow> 'n BusinessInfo \<Rightarrow> 'n BusinessInfo option" where
  "businessExistsInState savedBusinesses cur = find (sameBusiness cur) savedBusinesses"

text \<open>
  The outcome of \<^verbatim>\<open>saveBusinessToSupabase\<close> as the effect's asynchronous block sees it:
  the upsert succeeded, it failed with an error (caught inside and returned as
  \<^verbatim>\<open>{ success: false, error }\<close>), or no client could be obtained, which throws before
  the \<^verbatim>\<open>try\<close> and rejects the promise.
\<close>

datatype save_outcome = SaveOk | SaveFailed string | SaveRejected

text \<open>
  The part of the App component's state the capture path touches: the in-memory session
  list, the records handed to the persistence capability, and the console.
\<close>

record 'n app_state =
  savedBusinesses :: "'n BusinessInfo list"
  forwarded :: "'n BusinessInfo list"
  console :: "string list"

text \<open>
  The effect on \<^verbatim>\<open>[currentBusiness, savedBusinesses]\<close>, run with the current business of
  the hook. When no record of the list has the same identity it appends the record
  (\<^verbatim>\<open>setSavedBusinesses(prev => [...prev, currentBusiness])\<close>) and starts the save.
\<close>

definition capture_effect :: "'n BusinessInfo option \<Rightarrow> 'n app_state \<Rightarrow> 'n app_state" where
  "capture_effect currentBusiness st =
     (case currentBusiness of
        None \<Rightarrow> st
      | Some cur \<Rightarrow>
          (case businessExistsInState (savedBusinesses st) cur of
             None \<Rightarrow> st\<lparr>savedBusinesses := savedBusinesses st @ [cur],
                        forwarded := forwarded st @ [cur],
                        console := console st @ [''New business identified by hook'',
                                                 ''Attempting to save NEW business to Supabase (archive)'']\<rparr>
           | Some b \<Rightarrow> st\<lparr>console := console st @ [''Business already processed or in local state'']\<rparr>))"

text \<open>The continuation of the asynchronous block once the save has settled: it only logs.\<close>

definition save_settled :: "save_outcome \<Rightarrow> 'n app_state \<Rightarrow> 'n app_state" where
  "save_settled r st =
     (case r of
        SaveOk \<Rightarrow> st\<lparr>console := console st @ [''Successfully saved NEW business to Supabase (archive)'']\<rparr>
      | SaveFailed e \<Rightarrow> st\<lparr>console := console st @ [''Failed to save NEW business to Supabase (archive)'', e]\<rparr>
      | SaveRejected \<Rightarrow> st)"

text \<open>A session: the captures made one after the other, starting from the empty list.\<close>

definition initial_app :: "'n app_state" where
  "initial_app = \<lparr>savedBusinesses = [], forwarded = [], console = []\<rparr>"

fun captures :: "'n BusinessInfo list \<Rightarrow> 'n app_state \<Rightarrow> 'n app_state" where
  "captures [] st = st"
| "captures (b # bs) st = captures bs (capture_effect (Some b) st)"

text \<open>
  The identity rule in the specification's words: the names match exactly and the
  addresses match exactly or are both absent or empty.
\<close>

definition absent_or_empty :: "string option \<Rightarrow> bool" where
  "absent_or_empty a = (a = None \<or> a = Some [])"

definition same_identity :: "'n BusinessInfo \<Rightarrow> 'n BusinessInfo \<Rightarrow> bool" where
  "same_identity x y =
     (name x = name y \<and> (address x = address y \<or> (absent_or_empty (address x) \<and> absent_or_empty (address y))))"

text \<open>No two positions of a list hold records of the same identity.\<close>

fun identity_free :: "'n BusinessInfo list \<Rightarrow> bool" where
  "identity_free [] = True"
| "identity_free (b # bs) = ((\<forall>c \<in> set bs. \<not> same_identity b c) \<and> identity_free bs)"

section \<open>The embedded page and the Script Injector (useWebviewInteraction.ts)\<close>

text \<open>
  A read of the embedded document either returns a value or throws an \<^verbatim>\<open>Error\<close>;
  \<open>Inl m\<close> is the exception with message \<open>m\<close>.
\<close>

type_synonym 'a dom = "string + 'a"

definition bind_dom :: "'a dom \<Rightarrow> ('a \<Rightarrow> 'b dom) \<Rightarrow> 'b dom" where
  "bind_dom m f = (case m of Inl e \<Rightarrow> Inl e | Inr v \<Rightarrow> f v)"

text \<open>
  What the injected scripts read. An item element answers \<^verbatim>\<open>querySelector('.Io6YTe')\<close>
  with no element (\<open>None\<close>) or with the label's \<^verbatim>\<open>textContent\<close> (a string or null); a
  link is given by its \<^verbatim>\<open>href\<close> property (a string or undefined).
\<close>

type_synonym item = "string option option dom"
type_synonym link = "string option"

record page =
  document_title :: "string dom"
  location_href :: "string dom"
  q_phone :: "item option dom"
  q_address :: "item option dom"
  q_description :: "bool dom"
  q_authority :: "link option dom"
  q_jslog :: "link option dom"
  q_tooltip :: "link option dom"

text \<open>
  The selectors behind the fields: \<open>q_phone\<close> is
  \<^verbatim>\<open>document.querySelector("[data-item-id^='phone:tel:']")\<close>, \<open>q_address\<close> is
  \<^verbatim>\<open>"[data-item-id='address']"\<close>, \<open>q_description\<close> says whether \<^verbatim>\<open>".PYvSYb"\<close> finds an
  element, \<open>q_authority\<close> is \<^verbatim>\<open>"[data-item-id='authority']"\<close>, \<open>q_jslog\<close> is
  \<^verbatim>\<open>"a[jslog*='3443']"\<close> and \<open>q_tooltip\<close> is \<^verbatim>\<open>"a[data-tooltip='Open website']"\<close>.
\<close>

text \<open>The promise of \<^verbatim>\<open>webview.executeJavaScript\<close> as its handlers see it.\<close>

datatype 'a outcome = Rejected | Resolved 'a

text \<open>
  The script runs in the page, when there is one to run it in; an exception that escapes
  the script rejects the promise.
\<close>

definition executeJavaScript :: "(page \<Rightarrow> 'a dom) \<Rightarrow> page option \<Rightarrow> 'a outcome" where
  "executeJavaScript script pg =
     (case pg of
        None \<Rightarrow> Rejected
      | Some p \<Rightarrow> (case script p of Inl m \<Rightarrow> Rejected | Inr v \<Rightarrow> Resolved v))"

section \<open>Page Classifier\<close>

text \<open>
  The script of \<^verbatim>\<open>checkIfBusinessPage\<close>. It returns the object
  \<^verbatim>\<open>{ isBusinessPage: b }\<close>, represented by \<open>b\<close>.
\<close>

definition isBusinessTitle :: "string \<Rightarrow> bool" where
  "isBusinessTitle title = (includes_str title '' - Google Maps'' \<and> title \<noteq> ''Google Maps'')"

definition classify_script :: "page \<Rightarrow> bool dom" where
  "classify_script p =
     bind_dom (document_title p) (\<lambda>title.
     bind_dom (q_address p) (\<lambda>addressElement.
     bind_dom (q_description p) (\<lambda>hasBusinessDescription.
       Inr (isBusinessTitle title \<and> (addressElement \<noteq> None \<or> hasBusinessDescription)))))"

section \<open>Business Extractor\<close>

text \<open>
  The regular expression \<^verbatim>\<open>/@(-?\d+\.\d+),(-?\d+\.\d+)/\<close> of the extraction script.
  \<open>match_number\<close> is the group \<^verbatim>\<open>(-?\d+\.\d+)\<close> at the start of a string: it returns
  the text of the group and what follows it. Both \<^verbatim>\<open>\d+\<close> take every digit there is:
  a shorter run would be followed by a digit, where the expression wants \<^verbatim>\<open>.\<close>, \<^verbatim>\<open>,\<close>
  or its end, so backtracking finds nothing more.
\<close>

definition digit :: "char \<Rightarrow> bool" where
  "digit c = (c \<in> set ''0123456789'')"

definition match_number :: "string \<Rightarrow> (string \<times> string) option" where
  "match_number s =
     (let sign = (if startsWith s ''-'' then ''-'' else []);
          s1 = drop (length sign) s;
          ip = takeWhile digit s1;
          s2 = dropWhile digit s1
      in if ip = [] then None
         else (case s2 of
                 [] \<Rightarrow> None
               | c # s3 \<Rightarrow>
                   if c \<noteq> CHR ''.'' then None
                   else (let fp = takeWhile digit s3; s4 = dropWhile digit s3
                         in if fp = [] then None else Some (sign @ ip @ ''.'' @ fp, s4))))"

text \<open>The whole expression, tried at the start of a string.\<close>

definition match_here :: "string \<Rightarrow> (string \<times> string) option" where
  "match_here s =
     (case s of
        [] \<Rightarrow> None
      | c # s1 \<Rightarrow>
          if c \<noteq> CHR ''@'' then None
          else (case match_number s1 of
                  None \<Rightarrow> None
                | Some (lat, s2) \<Rightarrow>
                    (case s2 of
                       [] \<Rightarrow> None
                     | d # s3 \<Rightarrow>
                         if d \<noteq> CHR '','' then None
                         else (case match_number s3 of
                                 None \<Rightarrow> None
                               | Some (lng, s4) \<Rightarrow> Some (lat, lng)))))"

text \<open>
  \<^verbatim>\<open>url.match(re)\<close> without the global flag: the match at the leftmost position that has
  one; the result is the pair of groups 1 and 2, or null.
\<close>

fun coordsMatch :: "string \<Rightarrow> (string \<times> string) option" where
  "coordsMatch [] = None"
| "coordsMatch (c # s) =
     (case match_here (c # s) of Some m \<Rightarrow> Some m | None \<Rightarrow> coordsMatch s)"

text \<open>
  The fields of the record, in the order of the script. \<open>parseFloat\<close> is JavaScript's,
  taken as a parameter.
\<close>

definition label_text :: "item option \<Rightarrow> string dom" where
  "label_text el =
     (case el of
        None \<Rightarrow> Inr []
      | Some it \<Rightarrow>
          bind_dom it (\<lambda>labelElement.
            Inr (case labelElement of
                   None \<Rightarrow> []
                 | Some textContent \<Rightarrow> (if truthy textContent then the textContent else []))))"

definition website_of :: "page \<Rightarrow> string dom" where
  "website_of p =
     bind_dom (q_authority p) (\<lambda>websiteElement.
       if websiteElement \<noteq> None \<and> truthy (the websiteElement) then Inr (the (the websiteElement))
       else
         bind_dom (q_jslog p) (\<lambda>byLog.
         bind_dom (if byLog \<noteq> None then Inr byLog else q_tooltip p) (\<lambda>websiteLink.
           Inr (if websiteLink \<noteq> None \<and> truthy (the websiteLink) then the (the websiteLink)
                else []))))"

definition coordinates_of :: "(string \<Rightarrow> 'n) \<Rightarrow> string \<Rightarrow> ('n \<times> 'n) option" where
  "coordinates_of parseFloat url =
     (case coordsMatch url of
        None \<Rightarrow> None
      | Some (g1, g2) \<Rightarrow> Some (parseFloat g1, parseFloat g2))"

text \<open>The body of the script's \<^verbatim>\<open>try\<close> block.\<close>

definition derive_fields :: "(string \<Rightarrow> 'n) \<Rightarrow> page \<Rightarrow> 'n BusinessInfo dom" where
  "derive_fields parseFloat p =
     bind_dom (document_title p) (\<lambda>title.
     bind_dom (q_phone p) (\<lambda>phoneElement.
     bind_dom (label_text phoneElement) (\<lambda>phone'.
     bind_dom (q_address p) (\<lambda>addressElement.
     bind_dom (label_text addressElement) (\<lambda>address'.
     bind_dom (website_of p) (\<lambda>website'.
     bind_dom (location_href p) (\<lambda>url.
       Inr \<lparr>name = replace_first title '' - Google Maps'',
            address = Some address',
            phone = Some phone',
            website = Some website',
            description = None,
            hours = None,
            coordinates = coordinates_of parseFloat url,
            screenshot = None,
            imageUrl = None,
            research = None,
            apollo = None,
            googlePlaceId = None\<rparr>)))))))"

text \<open>
  The object the script returns: \<^verbatim>\<open>{ error: error.message }\<close> from the \<^verbatim>\<open>catch\<close>
  block, or the record literal with the keys name, phone, address, website and
  coordinates.
\<close>

datatype 'n script_result = ErrorObject string | RecordObject "'n BusinessInfo"

definition extract_script :: "(string \<Rightarrow> 'n) \<Rightarrow> page \<Rightarrow> 'n script_result dom" where
  "extract_script parseFloat p =
     Inr (case derive_fields parseFloat p of
            Inl message \<Rightarrow> ErrorObject message
          | Inr r \<Rightarrow> RecordObject r)"

text \<open>
  The two type guards of the caller: \<^verbatim>\<open>'error' in obj\<close>, and
  \<^verbatim>\<open>'name' in obj && 'address' in obj\<close>.
\<close>

fun hasError :: "'n script_result \<Rightarrow> bool" where
  "hasError (ErrorObject m) = True"
| "hasError (RecordObject r) = False"

fun isBusinessInfo :: "'n script_result \<Rightarrow> bool" where
  "isBusinessInfo (ErrorObject m) = False"
| "isBusinessInfo (RecordObject r) = True"

section \<open>Navigation Monitor: the state of the hook\<close>

text \<open>
  The functions registered as listeners. \<open>SetIsLoadingTrue k\<close> is the function object made
  by the \<open>k\<close>-th evaluation of the arrow expression \<^verbatim>\<open>() => setIsLoading(true)\<close>: each
  evaluation makes a new object, and listeners are compared by object identity.
\<close>

datatype listener =
    HandleLoad
  | HandleNavigationComplete
  | ApplyWebviewInteractionFixes
  | SetIsLoadingTrue nat

datatype call = PatchCall | CheckCall | ExtractCall

record 'n hook_state =
  attached :: bool
  listeners :: "(string \<times> listener) list"
  intervals :: "nat list"
  next_interval :: nat
  closures :: nat
  cleanup :: "nat option"
  timeouts :: nat
  pending :: "call list"
  isLoading :: bool
  isBusinessPage :: bool
  currentBusiness :: "'n BusinessInfo option"

text \<open>
  \<open>attached\<close>: \<^verbatim>\<open>webviewRef.current\<close> is the element and not null. \<open>listeners\<close>: the
  listener list of the webview element. \<open>intervals\<close>: the interval timers that run.
  \<open>cleanup\<close>: the function the mount effect returned, with the \<^verbatim>\<open>intervalId\<close> it closes
  over. \<open>timeouts\<close>: the settle delays that have not fired. \<open>pending\<close>: the injector
  calls that have not settled.
\<close>

definition initial_hook :: "'n hook_state" where
  "initial_hook =
     \<lparr>attached = True, listeners = [], intervals = [], next_interval = 0, closures = 0,
      cleanup = None, timeouts = 0, pending = [], isLoading = True, isBusinessPage = False,
      currentBusiness = None\<rparr>"

text \<open>
  \<^verbatim>\<open>addEventListener\<close> and \<^verbatim>\<open>removeEventListener\<close> of an event target: a listener is
  added unless the same type and function object are in the list; the entry with the same
  type and function object is removed.
\<close>

definition addEventListener :: "string \<Rightarrow> listener \<Rightarrow> 'n hook_state \<Rightarrow> 'n hook_state" where
  "addEventListener type f st =
     (if (type, f) \<in> set (listeners st) then st
      else st\<lparr>listeners := listeners st @ [(type, f)]\<rparr>)"

definition removeEventListener :: "string \<Rightarrow> listener \<Rightarrow> 'n hook_state \<Rightarrow> 'n hook_state" where
  "removeEventListener type f st = st\<lparr>listeners := remove1 (type, f) (listeners st)\<rparr>"

text \<open>An arrow expression is evaluated: a new function object.\<close>

definition new_closure :: "'n hook_state \<Rightarrow> listener \<times> 'n hook_state" where
  "new_closure st = (SetIsLoadingTrue (closures st), st\<lparr>closures := Suc (closures st)\<rparr>)"

text \<open>The effect of the hook, run once after mount, and the cleanup it returns.\<close>

definition mount_effect :: "'n hook_state \<Rightarrow> 'n hook_state" where
  "mount_effect st =
     (if \<not> attached st then st
      else
        (let (f, st1) = new_closure st;
             st2 = addEventListener ''did-start-loading'' f st1;
             st3 = addEventListener ''did-finish-load'' HandleLoad st2;
             st4 = addEventListener ''did-navigate'' HandleNavigationComplete st3;
             st5 = addEventListener ''did-navigate-in-page'' HandleNavigationComplete st4;
             st6 = addEventListener ''dom-ready'' ApplyWebviewInteractionFixes st5;
             intervalId = next_interval st6
         in st6\<lparr>intervals := intervals st6 @ [intervalId],
                 next_interval := Suc intervalId,
                 cleanup := Some intervalId\<rparr>))"

definition cleanup_effect :: "'n hook_state \<Rightarrow> 'n hook_state" where
  "cleanup_effect st =
     (case cleanup st of
        None \<Rightarrow> st
      | Some intervalId \<Rightarrow>
          (let (f, st1) = new_closure st;
               st2 = removeEventListener ''did-start-loading'' f st1;
               st3 = removeEventListener ''did-finish-load'' HandleLoad st2;
               st4 = removeEventListener ''did-navigate'' HandleNavigationComplete st3;
               st5 = removeEventListener ''did-navigate-in-page'' HandleNavigationComplete st4;
               st6 = removeEventListener ''dom-ready'' ApplyWebviewInteractionFixes st5
           in st6\<lparr>intervals := remove1 intervalId (intervals st6), cleanup := None\<rparr>))"

text \<open>Teardown: the ref is detached and the cleanup of the effect runs.\<close>

definition unmount :: "'n hook_state \<Rightarrow> 'n hook_state" where
  "unmount st = cleanup_effect (st\<lparr>attached := False\<rparr>)"

text \<open>
  \<^verbatim>\<open>applyWebviewInteractionFixes\<close>, \<^verbatim>\<open>checkIfBusinessPage\<close> and
  \<^verbatim>\<open>updateCurrentBusiness\<close> up to the injector call: each returns at once when the ref is
  null.
\<close>

definition applyWebviewInteractionFixes :: "'n hook_state \<Rightarrow> 'n hook_state" where
  "applyWebviewInteractionFixes st =
     (if \<not> attached st then st else st\<lparr>pending := pending st @ [PatchCall]\<rparr>)"

definition checkIfBusinessPage :: "'n hook_state \<Rightarrow> 'n hook_state" where
  "checkIfBusinessPage st =
     (if \<not> attached st then st else st\<lparr>pending := pending st @ [CheckCall]\<rparr>)"

definition updateCurrentBusiness :: "'n hook_state \<Rightarrow> 'n hook_state" where
  "updateCurrentBusiness st =
     (if \<not> attached st then st else st\<lparr>timeouts := Suc (timeouts st)\<rparr>)"

text \<open>The callback of the 750 ms timeout.\<close>

definition settle_delay_over :: "'n hook_state \<Rightarrow> 'n hook_state" where
  "settle_delay_over st =
     (if timeouts st = 0 then st
      else (let st1 = st\<lparr>timeouts := timeouts st - 1\<rparr>
            in if \<not> attached st1 then st1 else st1\<lparr>pending := pending st1 @ [ExtractCall]\<rparr>))"

text \<open>The handlers of the promises.\<close>

definition check_then :: "bool \<Rightarrow> 'n hook_state \<Rightarrow> 'n hook_state" where
  "check_then result st =
     (let st1 = st\<lparr>isBusinessPage := result\<rparr>
      in if \<not> result then st1\<lparr>currentBusiness := None\<rparr> else st1)"

definition check_catch :: "'n hook_state \<Rightarrow> 'n hook_state" where
  "check_catch st = st\<lparr>isBusinessPage := False, currentBusiness := None\<rparr>"

definition extract_then :: "'n script_result \<Rightarrow> 'n hook_state \<Rightarrow> 'n hook_state" where
  "extract_then result st =
     (if hasError result then st\<lparr>currentBusiness := None\<rparr>
      else if isBusinessInfo result
        then st\<lparr>currentBusiness := (case result of RecordObject r \<Rightarrow> Some r | ErrorObject m \<Rightarrow> None)\<rparr>
      else st)"

definition extract_catch :: "'n hook_state \<Rightarrow> 'n hook_state" where
  "extract_catch st = st\<lparr>currentBusiness := None\<rparr>"

definition check_settled :: "bool outcome \<Rightarrow> 'n hook_state \<Rightarrow> 'n hook_state" where
  "check_settled r st =
     (if CheckCall \<notin> set (pending st) then st
      else (let st1 = st\<lparr>pending := remove1 CheckCall (pending st)\<rparr>
            in case r of Resolved b \<Rightarrow> check_then b st1 | Rejected \<Rightarrow> check_catch st1))"

definition extract_settled :: "'n script_result outcome \<Rightarrow> 'n hook_state \<Rightarrow> 'n hook_state" where
  "extract_settled r st =
     (if ExtractCall \<notin> set (pending st) then st
      else (let st1 = st\<lparr>pending := remove1 ExtractCall (pending st)\<rparr>
            in case r of Resolved v \<Rightarrow> extract_then v st1 | Rejected \<Rightarrow> extract_catch st1))"

definition patch_settled :: "'n hook_state \<Rightarrow> 'n hook_state" where
  "patch_settled st = st\<lparr>pending := remove1 PatchCall (pending st)\<rparr>"

text \<open>The listeners, and the dispatch of an event of the webview to them.\<close>

fun run_listener :: "listener \<Rightarrow> 'n hook_state \<Rightarrow> 'n hook_state" where
  "run_listener HandleLoad st =
     checkIfBusinessPage (applyWebviewInteractionFixes (st\<lparr>isLoading := False\<rparr>))"
| "run_listener HandleNavigationComplete st = checkIfBusinessPage (st\<lparr>isLoading := False\<rparr>)"
| "run_listener ApplyWebviewInteractionFixes st = applyWebviewInteractionFixes st"
| "run_listener (SetIsLoadingTrue k) st = st\<lparr>isLoading := True\<rparr>"

definition dispatch :: "string \<Rightarrow> 'n hook_state \<Rightarrow> 'n hook_state" where
  "dispatch type st =
     fold run_listener (map snd (filter (\<lambda>l. fst l = type) (listeners st))) st"

text \<open>What can happen to the hook, and the state after it.\<close>

datatype 'n event =
    Mount
  | Unmount
  | Emit string
  | Tick nat
  | SaveClicked
  | SettleDelayOver
  | CheckSettled "bool outcome"
  | ExtractSettled "'n script_result outcome"
  | PatchSettled

fun step :: "'n event \<Rightarrow> 'n hook_state \<Rightarrow> 'n hook_state" where
  "step Mount st = mount_effect st"
| "step Unmount st = unmount st"
| "step (Emit type) st = dispatch type st"
| "step (Tick i) st = (if i \<in> set (intervals st) then checkIfBusinessPage st else st)"
| "step SaveClicked st = updateCurrentBusiness st"
| "step SettleDelayOver st = settle_delay_over st"
| "step (CheckSettled r) st = check_settled r st"
| "step (ExtractSettled r) st = extract_settled r st"
| "step PatchSettled st = patch_settled st"

definition run :: "'n event list \<Rightarrow> 'n hook_state \<Rightarrow> 'n hook_state" where
  "run es st = fold step es st"

section \<open>Interaction Patcher\<close>

text \<open>
  The style state of the embedded document: its elements in document order, each with
  what the selectors of the patch look at (tag, id, classes, the \<^verbatim>\<open>role\<close> attribute) and
  the three inline style properties the patch assigns.
\<close>

record css =
  cursor :: string
  pointerEvents :: string
  touchAction :: string

record element =
  tag :: string
  elem_id :: string
  classes :: "string list"
  role :: "string option"
  style :: css

definition has_class :: "string \<Rightarrow> element \<Rightarrow> bool" where
  "has_class c el = (c \<in> set (classes el))"

text \<open>\<^verbatim>\<open>document.body\<close>, and the element \<^verbatim>\<open>getElementById('searchboxinput')\<close> looks for.\<close>

definition is_body :: "element \<Rightarrow> bool" where
  "is_body el = (tag el = ''body'')"

definition is_searchBar :: "element \<Rightarrow> bool" where
  "is_searchBar el = (elem_id el = ''searchboxinput'')"

text \<open>The three selector lists handed to \<^verbatim>\<open>querySelectorAll\<close>.\<close>

definition is_mapElement :: "element \<Rightarrow> bool" where
  "is_mapElement el =
     (has_class ''widget-scene'' el \<or> has_class ''widget-scene-canvas'' el \<or>
      role el = Some ''application'')"

definition is_zoomControl :: "element \<Rightarrow> bool" where
  "is_zoomControl el =
     (has_class ''widget-zoom'' el \<or> has_class ''gm-control-active'' el \<or>
      has_class ''gmnoprint'' el)"

definition is_infoCard :: "element \<Rightarrow> bool" where
  "is_infoCard el =
     (has_class ''section-layout'' el \<or> has_class ''section-hero-header'' el \<or>
      has_class ''section-result-content'' el)"

text \<open>The assignments of the script to one element.\<close>

definition fix_body :: "element \<Rightarrow> element" where
  "fix_body el = el\<lparr>style := (style el)\<lparr>cursor := ''auto''\<rparr>\<rparr>"

definition fix_mapElement :: "element \<Rightarrow> element" where
  "fix_mapElement el =
     el\<lparr>style := (style el)\<lparr>pointerEvents := ''auto'', touchAction := ''manipulation''\<rparr>\<rparr>"

definition fix_zoomControl :: "element \<Rightarrow> element" where
  "fix_zoomControl el = el\<lparr>style := (style el)\<lparr>pointerEvents := ''auto'', cursor := ''pointer''\<rparr>\<rparr>"

definition fix_searchBar :: "element \<Rightarrow> element" where
  "fix_searchBar el = el\<lparr>style := (style el)\<lparr>pointerEvents := ''auto'', cursor := ''text''\<rparr>\<rparr>"

definition fix_infoCard :: "element \<Rightarrow> element" where
  "fix_infoCard el = el\<lparr>style := (style el)\<lparr>pointerEvents := ''auto'', cursor := ''auto''\<rparr>\<rparr>"

text \<open>An assignment to the first element of the document that a test picks, if any.\<close>

fun update_first :: "('a \<Rightarrow> bool) \<Rightarrow> ('a \<Rightarrow> 'a) \<Rightarrow> 'a list \<Rightarrow> 'a list" where
  "update_first P f [] = []"
| "update_first P f (x # xs) = (if P x then f x # xs else x # update_first P f xs)"

text \<open>An assignment to every element a selector list matches (\<^verbatim>\<open>forEach\<close>).\<close>

definition update_all :: "('a \<Rightarrow> bool) \<Rightarrow> ('a \<Rightarrow> 'a) \<Rightarrow> 'a list \<Rightarrow> 'a list" where
  "update_all P f xs = map (\<lambda>x. if P x then f x else x) xs"

text \<open>
  The script of \<^verbatim>\<open>applyWebviewInteractionFixes\<close>. Its first statement reads
  \<^verbatim>\<open>document.body.style\<close> and throws when the document has no body; nothing has been
  assigned then.
\<close>

definition interaction_fixes :: "element list \<Rightarrow> element list dom" where
  "interaction_fixes document =
     (if \<not> list_ex is_body document then Inl ''document.body is null''
      else
        (let d1 = update_first is_body fix_body document;
             d2 = update_all is_mapElement fix_mapElement d1;
             d3 = update_all is_zoomControl fix_zoomControl d2;
             d4 = update_first is_searchBar fix_searchBar d3;
             d5 = update_all is_infoCard fix_infoCard d4
         in Inr d5))"

text \<open>The style state of the document after one run of the patch.\<close>

definition patched :: "element list \<Rightarrow> element list" where
  "patched document = (case interaction_fixes document of Inl m \<Rightarrow> document | Inr d \<Rightarrow> d)"

text \<open>The elements the patch aims at.\<close>

definition targeted :: "element \<Rightarrow> bool" where
  "targeted el =
     (is_mapElement el \<or> is_zoomControl el \<or> is_searchBar el \<or> is_infoCard el)"

section \<open>Export by timestamp range (App.tsx, supabaseClient.ts)\<close>

text \<open>A row of \<^verbatim>\<open>current_list\<close> as the query selects it, and the response of the client.\<close>

record 'n db_row =
  row_name :: "string option"
  row_address :: "string option"
  row_phone :: "string option"
  row_website :: "string option"
  row_coordinates :: "('n \<times> 'n) option"
  row_created_at :: string

record 'n response =
  resp_data :: "'n db_row list option"
  resp_error :: "string option"
  resp_status :: nat

record export_result =
  exp_success :: bool
  exp_error :: "string option"
  exp_filePath :: "string option"

text \<open>
  What the export path is run against. \<open>Date\<close> is \<^verbatim>\<open>new Date(s)\<close>: the time value in
  milliseconds, or \<open>None\<close> for an invalid date. \<open>toISOString\<close> is the method of that name
  on a valid date. \<open>client\<close> says whether \<^verbatim>\<open>getSupabaseClient\<close> obtains a client.
  \<open>select_range\<close> is the remote query
  \<^verbatim>\<open>.gte('created_at', lo).lte('created_at', hi).order('created_at', ...)\<close>, and
  \<open>exportArchiveByDate\<close> the file export of the preload bridge.
\<close>

record 'n env =
  Date :: "string \<Rightarrow> int option"
  toISOString :: "int \<Rightarrow> string"
  client :: bool
  select_range :: "string \<Rightarrow> string \<Rightarrow> 'n response"
  exportArchiveByDate :: "'n BusinessInfo list \<Rightarrow> export_result"

text \<open>
  What the export path does to the outside, in order: it asks for the client, it sends the
  range query with its two bounds, it calls the file export, it shows an alert. Console
  output is left out.
\<close>

datatype 'n io = GetClient | Query string string | Export "'n BusinessInfo list" | Alert string

datatype 'n range_result = RangeOk "'n BusinessInfo list" | RangeFailed string

text \<open>\<^verbatim>\<open>item.name || ''\<close> and \<^verbatim>\<open>item.address || null\<close> of the mapping of rows.\<close>

definition or_null :: "string option \<Rightarrow> string option" where
  "or_null v = (if truthy v then v else None)"

definition toBusiness :: "'n db_row \<Rightarrow> 'n BusinessInfo" where
  "toBusiness item =
     \<lparr>name = (if truthy (row_name item) then the (row_name item) else []),
      address = or_null (row_address item),
      phone = or_null (row_phone item),
      website = or_null (row_website item),
      description = None,
      hours = None,
      coordinates = row_coordinates item,
      screenshot = None,
      imageUrl = None,
      research = None,
      apollo = None,
      googlePlaceId = None\<rparr>"

text \<open>The strings handed to \<^verbatim>\<open>new Date\<close> for the two bounds.\<close>

definition start_text :: "string \<Rightarrow> string" where
  "start_text startTimestampString =
     (if includes_str startTimestampString ''.'' then startTimestampString
      else startTimestampString @ '':00.000Z'')"

definition end_text :: "string \<Rightarrow> string" where
  "end_text endTimestampString =
     (if includes_str endTimestampString ''.'' then endTimestampString
      else endTimestampString @ '':59.999Z'')"

text \<open>
  \<^verbatim>\<open>getBusinessesFromDateRange\<close>. Without a client it throws before its \<^verbatim>\<open>try\<close>
  (\<open>Inl\<close>); \<^verbatim>\<open>toISOString\<close> on an invalid date throws a RangeError inside the
  \<^verbatim>\<open>try\<close>, which returns \<^verbatim>\<open>{ success: false, error }\<close>.
\<close>

definition getBusinessesFromDateRange ::
  "'n env \<Rightarrow> string \<Rightarrow> string \<Rightarrow> 'n io list \<times> 'n range_result dom" where
  "getBusinessesFromDateRange env startTimestampString endTimestampString =
     (if \<not> client env then ([GetClient], Inl ''Failed to initialize Supabase client.'')
      else
        (case Date env (start_text startTimestampString) of
           None \<Rightarrow> ([GetClient], Inr (RangeFailed ''RangeError: Invalid time value''))
         | Some t1 \<Rightarrow>
             (case Date env (end_text endTimestampString) of
                None \<Rightarrow> ([GetClient], Inr (RangeFailed ''RangeError: Invalid time value''))
              | Some t2 \<Rightarrow>
                  (let startDate = toISOString env t1;
                       endDate = toISOString env t2;
                       r = select_range env startDate endDate
                   in ([GetClient, Query startDate endDate],
                       Inr (if resp_error r \<noteq> None \<and> resp_status r \<noteq> 406
                            then RangeFailed (the (resp_error r))
                            else (case resp_data r of
                                    None \<Rightarrow> RangeOk []
                                  | Some rows \<Rightarrow> RangeOk (map toBusiness rows))))))))"

text \<open>\<^verbatim>\<open>startDate > endDate\<close> on two dates: false when either is invalid (NaN).\<close>

definition date_gt :: "int option \<Rightarrow> int option \<Rightarrow> bool" where
  "date_gt a b = (case a of None \<Rightarrow> False | Some x \<Rightarrow> (case b of None \<Rightarrow> False | Some y \<Rightarrow> y < x))"

definition select_alert :: string where
  "select_alert = ''Please select a start and end date/time for the archive export.''"

definition order_alert :: string where
  "order_alert = ''Start date/time cannot be after end date/time.''"

definition after_export :: "export_result \<Rightarrow> 'n io list" where
  "after_export x =
     (if exp_success x \<and> truthy (exp_filePath x)
        then [Alert (''Archive successfully exported to: '' @ the (exp_filePath x))]
      else if \<not> exp_success x \<and> exp_error x = Some ''Export canceled by user.'' then []
      else [Alert (''Failed to export archive session: '' @
              (case exp_error x of None \<Rightarrow> ''undefined'' | Some m \<Rightarrow> m))])"

text \<open>\<^verbatim>\<open>handleExportArchiveByTimestampRange\<close>, on the two strings of the input fields.\<close>

definition handleExportArchiveByTimestampRange :: "'n env \<Rightarrow> string \<Rightarrow> string \<Rightarrow> 'n io list" where
  "handleExportArchiveByTimestampRange env exportStartTimestamp exportEndTimestamp =
     (if exportStartTimestamp = [] \<or> exportEndTimestamp = [] then [Alert select_alert]
      else if date_gt (Date env exportStartTimestamp) (Date env exportEndTimestamp)
        then [Alert order_alert]
      else
        (case getBusinessesFromDateRange env exportStartTimestamp exportEndTimestamp of
           (ios, Inl thrown) \<Rightarrow> ios
         | (ios, Inr (RangeFailed e)) \<Rightarrow>
             ios @ [Alert (''Failed to fetch businesses from archive: '' @ e)]
         | (ios, Inr (RangeOk data)) \<Rightarrow>
             (if data = []
                then ios @ [Alert (''No businesses found in the archive between '' @
                              exportStartTimestamp @ '' and '' @ exportEndTimestamp @ ''.'')]
              else ios @ [Export data] @ after_export (exportArchiveByDate env data))))"

text \<open>The network calls and the I/O of a trace.\<close>

fun is_query :: "'n io \<Rightarrow> bool" where
  "is_query (Query lo hi) = True"
| "is_query x = False"

fun is_alert :: "'n io \<Rightarrow> bool" where
  "is_alert (Alert m) = True"
| "is_alert x = False"

section \<open>Example data\<close>

text \<open>A record with a name, an address and a phone number, and a page showing a business.\<close>

definition listing :: "string \<Rightarrow> string option \<Rightarrow> string option \<Rightarrow> real BusinessInfo" where
  "listing n a p =
     \<lparr>name = n, address = a, phone = p, website = None, description = None, hours = None,
      coordinates = None, screenshot = None, imageUrl = None, research = None, apollo = None,
      googlePlaceId = None\<rparr>"

definition example_page :: page where
  "example_page =
     \<lparr>document_title = Inr ''Cafe Uno - Google Maps'',
      location_href = Inr ''https://www.google.com/maps/place/Cafe+Uno/@40.7128,-74.0060,17z'',
      q_phone = Inr (Some (Inr (Some (Some ''555 0100'')))),
      q_address = Inr (Some (Inr (Some (Some ''1 Main St'')))),
      q_description = Inr False,
      q_authority = Inr (Some (Some ''https://cafe.example/'')),
      q_jslog = Inr None,
      q_tooltip = Inr None\<rparr>"

text \<open>
  The same page with a label lookup that throws, a stand-in for \<^verbatim>\<open>parseFloat\<close> on the
  two numbers of the example address, and a hook that waits for an extraction to settle.
\<close>

definition throwing_page :: page where
  "throwing_page = example_page\<lparr>q_address := Inr (Some (Inl ''querySelector is not a function''))\<rparr>"

definition parseFloat_example :: "string \<Rightarrow> real" where
  "parseFloat_example s =
     (if s = ''40.7128'' then 40.7128 else if s = ''-74.0060'' then - 74.0060 else 0)"

definition waiting_hook :: "real hook_state" where
  "waiting_hook = initial_hook\<lparr>pending := [ExtractCall],
      currentBusiness := Some (listing ''Cafe Uno'' (Some ''1 Main St'') None)\<rparr>"

text \<open>An element with restrictive inline styles, and a small document.\<close>

definition plain :: "string \<Rightarrow> string \<Rightarrow> string list \<Rightarrow> string option \<Rightarrow> element" where
  "plain t i cs r =
     \<lparr>tag = t, elem_id = i, classes = cs, role = r,
      style = \<lparr>cursor = ''wait'', pointerEvents = ''none'', touchAction = ''none''\<rparr>\<rparr>"

definition example_document :: "element list" where
  "example_document =
     [plain ''div'' ''sidebar'' [''panel''] None,
      plain ''body'' [] [] None,
      plain ''canvas'' [] [''widget-scene-canvas''] None,
      plain ''div'' [] [''gmnoprint'', ''section-layout''] None,
      plain ''input'' ''searchboxinput'' [] None]"

text \<open>The address of the example page, and an address with two signatures.\<close>

definition example_url :: string where
  "example_url = ''https://www.google.com/maps/place/Cafe+Uno/@40.7128,-74.0060,17z''"

definition twice_url :: string where
  "twice_url = ''https://www.google.com/maps/search/@1.5,2.5/@40.7128,-74.0060,15z''"

text \<open>
  An environment for the export path: \<^verbatim>\<open>new Date\<close> and \<^verbatim>\<open>toISOString\<close> on the strings and
  instants of one example range (any other string is an invalid date), a store that
  answers with no rows, and a file export that succeeds.
\<close>

definition example_Date :: "string \<Rightarrow> int option" where
  "example_Date = map_of
     [(''2024-01-01T10:00'', 1704103200000),
      (''2024-01-01T10:05'', 1704103500000),
      (''2024-01-01T10:00:00.000Z'', 1704103200000),
      (''2024-01-01T10:05:59.999Z'', 1704103559999)]"

definition example_toISOString :: "int \<Rightarrow> string" where
  "example_toISOString t =
     (if t = 1704103200000 then ''2024-01-01T10:00:00.000Z''
      else if t = 1704103559999 then ''2024-01-01T10:05:59.999Z''
      else ''1970-01-01T00:00:00.000Z'')"

definition example_env :: "bool \<Rightarrow> real env" where
  "example_env c =
     \<lparr>Date = example_Date,
      toISOString = example_toISOString,
      client = c,
      select_range = (\<lambda>lo hi. \<lparr>resp_data = Some [], resp_error = None, resp_status = 200\<rparr>),
      exportArchiveByDate = (\<lambda>rows. \<lparr>exp_success = True, exp_error = None,
                                        exp_filePath = Some ''archive.json''\<rparr>)\<rparr>"

section \<open>Notions used in the statements and proofs\<close>

text \<open>
  \<open>first_at P xs i\<close>: position \<open>i\<close> holds the first element of \<open>xs\<close> that satisfies \<open>P\<close>.
  \<open>when c f\<close> applies \<open>f\<close> under the condition \<open>c\<close>. The shape of an element is what the
  selectors of the patch look at. \<open>fix_at\<close> collects the assignments of one run of the patch
  to one element, given whether it is the body and whether it is the search bar found.
\<close>

definition first_at :: "('a \<Rightarrow> bool) \<Rightarrow> 'a list \<Rightarrow> nat \<Rightarrow> bool" where
  "first_at P xs i = (P (xs ! i) \<and> (\<forall>j<i. \<not> P (xs ! j)))"

definition "when" :: "bool \<Rightarrow> ('a \<Rightarrow> 'a) \<Rightarrow> 'a \<Rightarrow> 'a" where
  "when c f x = (if c then f x else x)"

definition shape :: "element \<Rightarrow> string \<times> string \<times> string list \<times> string option" where
  "shape el = (tag el, elem_id el, classes el, role el)"

definition fix_flags :: "bool \<Rightarrow> bool \<Rightarrow> bool \<Rightarrow> bool \<Rightarrow> bool \<Rightarrow> element \<Rightarrow> element" where
  "fix_flags b m z s c el =
     when c fix_infoCard (when s fix_searchBar (when z fix_zoomControl
       (when m fix_mapElement (when b fix_body el))))"

definition fix_at :: "bool \<Rightarrow> bool \<Rightarrow> element \<Rightarrow> element" where
  "fix_at fb fs el = fix_flags fb (is_mapElement el) (is_zoomControl el) fs (is_infoCard el) el"

text \<open>
  The signature \<^verbatim>\<open>@<lat>,<lng>\<close> in words: a number is an optional minus sign, one or
  more digits, a point, one or more digits (\<open>decimal\<close>, which splits the text at its first
  point), and a URL has coordinates when it contains \<^verbatim>\<open>@\<close>, a number, a comma and a
  number in a row.
\<close>

definition unsigned_decimal :: "string \<Rightarrow> bool" where
  "unsigned_decimal s =
     (let ip = takeWhile (\<lambda>c. c \<noteq> CHR ''.'') s; r = dropWhile (\<lambda>c. c \<noteq> CHR ''.'') s
      in ip \<noteq> [] \<and> list_all digit ip \<and> r \<noteq> [] \<and> tl r \<noteq> [] \<and> list_all digit (tl r))"

definition decimal :: "string \<Rightarrow> bool" where
  "decimal s = (if startsWith s ''-'' then unsigned_decimal (tl s) else unsigned_decimal s)"

definition has_coords :: "string \<Rightarrow> bool" where
  "has_coords url =
     (\<exists>pre lat lng post. url = pre @ ''@'' @ lat @ '','' @ lng @ post \<and> decimal lat \<and> decimal lng)"

section \<open>Strings: what the scans compute\<close>

lemma startsWith_iff: "startsWith s t = (\<exists>post. s = t @ post)"
  by (induction s t rule: startsWith.induct) auto

lemma includes_str_iff: "includes_str s t = (\<exists>pre post. s = pre @ t @ post)"
proof (induction s)
  case Nil
  then show ?case by auto
next
  case (Cons c s)
  show ?case
  proof
    assume "includes_str (c # s) t"
    then consider "startsWith (c # s) t" | "includes_str s t" by auto
    then show "\<exists>pre post. c # s = pre @ t @ post"
    proof cases
      case 1
      then obtain post where "c # s = t @ post" by (auto simp: startsWith_iff)
      then have "c # s = [] @ t @ post" by simp
      then show ?thesis by blast
    next
      case 2
      then obtain pre post where "s = pre @ t @ post" using Cons.IH by auto
      then have "c # s = (c # pre) @ t @ post" by simp
      then show ?thesis by blast
    qed
  next
    assume "\<exists>pre post. c # s = pre @ t @ post"
    then obtain pre post where eq: "c # s = pre @ t @ post" by blast
    show "includes_str (c # s) t"
    proof (cases pre)
      case Nil
      with eq have "startsWith (c # s) t" by (auto simp: startsWith_iff)
      then show ?thesis by simp
    next
      case (Cons d pre')
      with eq have "s = pre' @ t @ post" by simp
      then have "includes_str s t" using Cons.IH by blast
      then show ?thesis by simp
    qed
  qed
qed

section \<open>Session Controller: deduplication\<close>

lemma sameBusiness_identity: "sameBusiness cur b = same_identity b cur"
  by (auto simp: sameBusiness_def same_identity_def truthy_def absent_or_empty_def
      split: option.splits)

lemma businessExists_None:
  "(businessExistsInState xs cur = None) = (\<forall>b \<in> set xs. \<not> same_identity b cur)"
  by (auto simp: businessExistsInState_def find_None_iff sameBusiness_identity)

lemma capture_effect_saved:
  "savedBusinesses (capture_effect (Some cur) st) =
     (if \<exists>b \<in> set (savedBusinesses st). same_identity b cur then savedBusinesses st
      else savedBusinesses st @ [cur])"
proof (cases "businessExistsInState (savedBusinesses st) cur")
  case None
  then show ?thesis
    using businessExists_None [of "savedBusinesses st" cur] by (simp add: capture_effect_def)
next
  case (Some b)
  then show ?thesis
    using businessExists_None [of "savedBusinesses st" cur] by (auto simp: capture_effect_def)
qed

lemma capture_effect_rerun:
  "savedBusinesses (capture_effect (Some cur) (capture_effect (Some cur) st))
     = savedBusinesses (capture_effect (Some cur) st)"
proof -
  have "same_identity cur cur" by (simp add: same_identity_def)
  then show ?thesis by (auto simp: capture_effect_saved)
qed

lemma identity_free_snoc:
  "identity_free (xs @ [c]) = (identity_free xs \<and> (\<forall>b \<in> set xs. \<not> same_identity b c))"
  by (induction xs) auto

lemma capture_effect_identity_free:
  assumes "identity_free (savedBusinesses st)"
  shows "identity_free (savedBusinesses (capture_effect cur st))"
proof (cases cur)
  case None
  with assms show ?thesis by (simp add: capture_effect_def)
next
  case (Some b)
  with assms show ?thesis by (simp add: capture_effect_saved identity_free_snoc)
qed

lemma captures_identity_free:
  "identity_free (savedBusinesses st) \<Longrightarrow> identity_free (savedBusinesses (captures bs st))"
  by (induction bs arbitrary: st) (simp_all add: capture_effect_identity_free)

text \<open>
  Claim C1. A capture appends the extracted record to the in-memory session list if and
  only if no record of the list has the same identity, where two records have the same
  identity when their names are equal and their addresses are equal or both absent or
  empty. So two captures of the same identity append once (the second is dropped), two
  captures with one name and two different non-empty addresses both append, and the list
  of a session never holds two records of the same identity. (The effect also runs again
  when the list has changed; by \<open>capture_effect_rerun\<close> that run appends nothing.)
\<close>

theorem capture_dedup:
  fixes cur a b :: "'n BusinessInfo" and st :: "'n app_state"
  shows "savedBusinesses (capture_effect (Some cur) st) =
           (if \<exists>x \<in> set (savedBusinesses st). same_identity x cur then savedBusinesses st
            else savedBusinesses st @ [cur]) \<and>
         (same_identity a b \<and> (\<forall>x \<in> set (savedBusinesses st). \<not> same_identity x a) \<longrightarrow>
            savedBusinesses (captures [a, b] st) = savedBusinesses st @ [a]) \<and>
         (name a = name b \<and> address a \<noteq> address b \<and>
          \<not> absent_or_empty (address a) \<and> \<not> absent_or_empty (address b) \<and>
          (\<forall>x \<in> set (savedBusinesses st). \<not> same_identity x a \<and> \<not> same_identity x b) \<longrightarrow>
            savedBusinesses (captures [a, b] st) = savedBusinesses st @ [a, b]) \<and>
         identity_free (savedBusinesses (captures bs initial_app))"
proof (intro conjI impI)
  show "savedBusinesses (capture_effect (Some cur) st) =
           (if \<exists>x \<in> set (savedBusinesses st). same_identity x cur then savedBusinesses st
            else savedBusinesses st @ [cur])"
    by (rule capture_effect_saved)
  show "savedBusinesses (captures [a, b] st) = savedBusinesses st @ [a]"
    if "same_identity a b \<and> (\<forall>x \<in> set (savedBusinesses st). \<not> same_identity x a)"
    using that by (auto simp: capture_effect_saved)
  show "savedBusinesses (captures [a, b] st) = savedBusinesses st @ [a, b]"
    if "name a = name b \<and> address a \<noteq> address b \<and>
          \<not> absent_or_empty (address a) \<and> \<not> absent_or_empty (address b) \<and>
          (\<forall>x \<in> set (savedBusinesses st). \<not> same_identity x a \<and> \<not> same_identity x b)"
    using that by (auto simp: capture_effect_saved same_identity_def)
  show "identity_free (savedBusinesses (captures bs initial_app))"
    by (rule captures_identity_free) (simp add: initial_app_def)
qed

theorem capture_dedup_witness:
  "savedBusinesses (capture_effect (Some (listing ''Cafe Uno'' (Some ''1 Main St'') None))
      (initial_app\<lparr>savedBusinesses := [listing ''Cafe Uno'' (Some ''1 Main St'') (Some ''555'')]\<rparr>))
     = [listing ''Cafe Uno'' (Some ''1 Main St'') (Some ''555'')] \<and>
   savedBusinesses (captures [listing ''Cafe Uno'' None None, listing ''Cafe Uno'' (Some []) (Some ''555'')]
      initial_app) = [listing ''Cafe Uno'' None None] \<and>
   savedBusinesses (captures [listing ''Cafe Uno'' (Some ''1 Main St'') None,
                              listing ''Cafe Uno'' (Some ''2 High St'') None] initial_app)
     = [listing ''Cafe Uno'' (Some ''1 Main St'') None, listing ''Cafe Uno'' (Some ''2 High St'') None] \<and>
   identity_free (savedBusinesses (captures [listing ''Cafe Uno'' None None,
      listing ''Cafe Uno'' (Some []) None, listing ''Cafe Uno'' (Some ''2 High St'') None] initial_app))"
proof -
  let ?a = "listing ''Cafe Uno'' (Some ''1 Main St'') None"
  let ?b = "listing ''Cafe Uno'' (Some ''2 High St'') None"
  let ?c = "listing ''Cafe Uno'' None None"
  let ?d = "listing ''Cafe Uno'' (Some []) (Some ''555'')"
  let ?st = "initial_app\<lparr>savedBusinesses := [listing ''Cafe Uno'' (Some ''1 Main St'') (Some ''555'')]\<rparr>
               :: real app_state"
  note thm1 = capture_dedup [where cur = ?a and st = ?st and a = ?c and b = ?d and bs = "[]"]
  note thm2 = capture_dedup [where cur = ?a and st = "initial_app :: real app_state"
      and a = ?c and b = ?d and bs = "[]"]
  note thm3 = capture_dedup [where cur = ?a and st = "initial_app :: real app_state"
      and a = ?a and b = ?b
      and bs = "[listing ''Cafe Uno'' None None, listing ''Cafe Uno'' (Some []) None, ?b]"]
  have 1: "savedBusinesses (capture_effect (Some ?a) ?st)
             = [listing ''Cafe Uno'' (Some ''1 Main St'') (Some ''555'')]"
    using thm1 [THEN conjunct1] by (simp add: same_identity_def listing_def initial_app_def)
  have 2: "savedBusinesses (captures [?c, ?d] initial_app) = [?c]"
    using thm2 [THEN conjunct2, THEN conjunct1]
    by (simp add: same_identity_def absent_or_empty_def listing_def initial_app_def)
  have 3: "savedBusinesses (captures [?a, ?b] initial_app) = [?a, ?b]"
    using thm3 [THEN conjunct2, THEN conjunct2, THEN conjunct1]
    by (simp add: same_identity_def absent_or_empty_def listing_def initial_app_def)
  have 4: "identity_free (savedBusinesses (captures [listing ''Cafe Uno'' None None,
      listing ''Cafe Uno'' (Some []) None, ?b] initial_app))"
    using thm3 [THEN conjunct2, THEN conjunct2, THEN conjunct2] .
  from 1 2 3 4 show ?thesis by blast
qed

section \<open>Page Classifier: the classification\<close>

lemma classify_script_value:
  assumes "document_title p = Inr T" "q_address p = Inr a" "q_description p = Inr d"
  shows "classify_script p = Inr (isBusinessTitle T \<and> (a \<noteq> None \<or> d))"
  using assms by (simp add: classify_script_def bind_dom_def)

lemma bare_title_not_business: "\<not> isBusinessTitle ''Google Maps''"
  by (simp add: isBusinessTitle_def)

lemma classify_script_bare:
  assumes "document_title p = Inr ''Google Maps''"
  shows "classify_script p = Inr False \<or> (\<exists>m. classify_script p = Inl m)"
  using assms
  by (cases "q_address p"; cases "q_description p")
     (simp_all add: classify_script_def bind_dom_def bare_title_not_business)

lemma check_settled_flag:
  assumes "attached st"
  shows "isBusinessPage (check_settled r (checkIfBusinessPage st)) =
           (case r of Rejected \<Rightarrow> False | Resolved b \<Rightarrow> b)"
  using assms
  by (cases r) (simp_all add: check_settled_def checkIfBusinessPage_def check_then_def
      check_catch_def Let_def)

text \<open>
  Claim C2. With the title \<open>T\<close> and the two markers read from the page, the classifier
  sets \<open>isBusinessPage\<close> to true if and only if \<open>T\<close> contains \<^verbatim>\<open>' - Google Maps'\<close>, \<open>T\<close> is
  not the bare site name \<^verbatim>\<open>'Google Maps'\<close>, and the address marker or the description
  marker is present. For the bare site name the flag is false whatever the markers are.
\<close>

theorem classification_iff:
  fixes st :: "'n hook_state"
  shows
  "(attached st \<and> document_title p = Inr T \<and> q_address p = Inr a \<and> q_description p = Inr d \<longrightarrow>
      isBusinessPage (check_settled (executeJavaScript classify_script (Some p)) (checkIfBusinessPage st))
        = ((\<exists>pre post. T = pre @ '' - Google Maps'' @ post) \<and> T \<noteq> ''Google Maps'' \<and>
           (a \<noteq> None \<or> d))) \<and>
   (attached st \<and> document_title p = Inr ''Google Maps'' \<longrightarrow>
      \<not> isBusinessPage (check_settled (executeJavaScript classify_script (Some p)) (checkIfBusinessPage st)))"
proof (intro conjI impI)
  assume h: "attached st \<and> document_title p = Inr T \<and> q_address p = Inr a \<and> q_description p = Inr d"
  then have "executeJavaScript classify_script (Some p) = Resolved (isBusinessTitle T \<and> (a \<noteq> None \<or> d))"
    by (simp add: executeJavaScript_def classify_script_value)
  with h show "isBusinessPage (check_settled (executeJavaScript classify_script (Some p)) (checkIfBusinessPage st))
        = ((\<exists>pre post. T = pre @ '' - Google Maps'' @ post) \<and> T \<noteq> ''Google Maps'' \<and>
           (a \<noteq> None \<or> d))"
    by (simp add: check_settled_flag isBusinessTitle_def includes_str_iff)
next
  assume h: "attached st \<and> document_title p = Inr ''Google Maps''"
  then have "executeJavaScript classify_script (Some p) = Resolved False \<or>
             executeJavaScript classify_script (Some p) = Rejected"
    using classify_script_bare [of p] by (auto simp: executeJavaScript_def)
  with h show "\<not> isBusinessPage (check_settled (executeJavaScript classify_script (Some p)) (checkIfBusinessPage st))"
    by (auto simp: check_settled_flag)
qed

theorem classification_iff_witness:
  "isBusinessPage (check_settled (executeJavaScript classify_script (Some example_page))
      (checkIfBusinessPage (initial_hook :: real hook_state))) \<and>
   \<not> isBusinessPage (check_settled
      (executeJavaScript classify_script (Some (example_page\<lparr>document_title := Inr ''Google Maps''\<rparr>)))
      (checkIfBusinessPage (initial_hook :: real hook_state)))"
proof -
  let ?st = "initial_hook :: real hook_state"
  let ?a = "Some (Inr (Some (Some ''1 Main St''))) :: item option"
  let ?bare = "example_page\<lparr>document_title := Inr ''Google Maps''\<rparr>"
  have ex: "\<exists>pre post. ''Cafe Uno - Google Maps'' = pre @ '' - Google Maps'' @ post"
    by (rule exI [of _ "''Cafe Uno''"], rule exI [of _ "[]"]) simp
  have h1: "attached ?st \<and> document_title example_page = Inr ''Cafe Uno - Google Maps'' \<and>
      q_address example_page = Inr ?a \<and> q_description example_page = Inr False"
    by (simp add: example_page_def initial_hook_def)
  have h2: "attached ?st \<and> document_title ?bare = Inr ''Google Maps''"
    by (simp add: initial_hook_def)
  have 1: "isBusinessPage (check_settled (executeJavaScript classify_script (Some example_page))
      (checkIfBusinessPage ?st))"
    using classification_iff [where st = ?st and p = example_page
        and T = "''Cafe Uno - Google Maps''" and a = ?a and d = False, THEN conjunct1, THEN mp, OF h1]
      ex by simp
  have 2: "\<not> isBusinessPage (check_settled (executeJavaScript classify_script (Some ?bare))
      (checkIfBusinessPage ?st))"
    using classification_iff [where st = ?st and p = ?bare, THEN conjunct2, THEN mp, OF h2] .
  from 1 2 show ?thesis by blast
qed

section \<open>Business Extractor: failure of the derivation\<close>

lemma bind_dom_Inl [simp]: "bind_dom (Inl e) f = Inl e"
  by (simp add: bind_dom_def)

lemma bind_dom_Inr [simp]: "bind_dom (Inr v) f = f v"
  by (simp add: bind_dom_def)

lemma bind_dom_eq_Inr:
  "(bind_dom m f = Inr r) = (\<exists>v. m = Inr v \<and> f v = Inr r)"
  by (cases m) simp_all

lemma extract_script_result:
  "extract_script pf p =
     Inr (case derive_fields pf p of Inl m \<Rightarrow> ErrorObject m | Inr r \<Rightarrow> RecordObject r)"
  by (simp add: extract_script_def)

lemma extract_settled_error:
  assumes "ExtractCall \<in> set (pending st)"
  shows "currentBusiness (extract_settled (Resolved (ErrorObject m)) st) = None"
  using assms by (simp add: extract_settled_def extract_then_def Let_def)

lemma extract_settled_record:
  assumes "ExtractCall \<in> set (pending st)"
  shows "currentBusiness (extract_settled (Resolved (RecordObject r)) st) = Some r"
  using assms by (simp add: extract_settled_def extract_then_def Let_def)

lemma derive_fields_complete:
  assumes "derive_fields pf p = Inr r"
  shows "\<exists>title phoneElement phone' addressElement address' website' url.
           document_title p = Inr title \<and> q_phone p = Inr phoneElement \<and>
           label_text phoneElement = Inr phone' \<and> q_address p = Inr addressElement \<and>
           label_text addressElement = Inr address' \<and> website_of p = Inr website' \<and>
           location_href p = Inr url \<and>
           name r = replace_first title '' - Google Maps'' \<and> phone r = Some phone' \<and>
           address r = Some address' \<and> website r = Some website' \<and>
           coordinates r = coordinates_of pf url"
  using assms unfolding derive_fields_def bind_dom_eq_Inr by auto

text \<open>
  Claim C7. When the field derivation of an extraction run throws, the caller receives
  the failure object \<^verbatim>\<open>{ error: message }\<close>, which differs from every record object
  (the record with all fields empty among them) and is told apart by the caller's guards;
  the caller sets the current business to null; and a record reaches the caller only
  when every field derivation has returned, so none is built from a part of the fields.
\<close>

theorem extraction_failure:
  fixes st :: "'n hook_state"
  shows
  "(derive_fields pf p = Inl m \<and> ExtractCall \<in> set (pending st) \<longrightarrow>
      executeJavaScript (extract_script pf) (Some p) = Resolved (ErrorObject m) \<and>
      (\<forall>r. ErrorObject m \<noteq> (RecordObject r :: 'n script_result)) \<and>
      hasError (ErrorObject m :: 'n script_result) \<and>
      \<not> isBusinessInfo (ErrorObject m :: 'n script_result) \<and>
      currentBusiness (extract_settled (executeJavaScript (extract_script pf) (Some p)) st) = None) \<and>
   (executeJavaScript (extract_script pf) (Some p) = Resolved (RecordObject r) \<longrightarrow>
      derive_fields pf p = Inr r \<and> \<not> hasError (RecordObject r) \<and>
      (\<exists>title phoneElement phone' addressElement address' website' url.
         document_title p = Inr title \<and> q_phone p = Inr phoneElement \<and>
         label_text phoneElement = Inr phone' \<and> q_address p = Inr addressElement \<and>
         label_text addressElement = Inr address' \<and> website_of p = Inr website' \<and>
         location_href p = Inr url \<and>
         name r = replace_first title '' - Google Maps'' \<and> phone r = Some phone' \<and>
         address r = Some address' \<and> website r = Some website' \<and>
         coordinates r = coordinates_of pf url))"
proof (intro conjI impI)
  assume h: "derive_fields pf p = Inl m \<and> ExtractCall \<in> set (pending st)"
  then show e: "executeJavaScript (extract_script pf) (Some p) = Resolved (ErrorObject m)"
    by (simp add: executeJavaScript_def extract_script_result)
  from h show "currentBusiness (extract_settled (executeJavaScript (extract_script pf) (Some p)) st) = None"
    unfolding e by (simp add: extract_settled_error)
next
  assume "executeJavaScript (extract_script pf) (Some p) = Resolved (RecordObject r)"
  then show d: "derive_fields pf p = Inr r"
    by (cases "derive_fields pf p") (simp_all add: executeJavaScript_def extract_script_result)
  show "\<exists>title phoneElement phone' addressElement address' website' url.
         document_title p = Inr title \<and> q_phone p = Inr phoneElement \<and>
         label_text phoneElement = Inr phone' \<and> q_address p = Inr addressElement \<and>
         label_text addressElement = Inr address' \<and> website_of p = Inr website' \<and>
         location_href p = Inr url \<and>
         name r = replace_first title '' - Google Maps'' \<and> phone r = Some phone' \<and>
         address r = Some address' \<and> website r = Some website' \<and>
         coordinates r = coordinates_of pf url"
    by (rule derive_fields_complete [OF d])
qed simp_all

lemma derive_throwing_page:
  "derive_fields parseFloat_example throwing_page = Inl ''querySelector is not a function''"
  by (simp add: derive_fields_def throwing_page_def example_page_def label_text_def truthy_def)

theorem extraction_failure_witness:
  "executeJavaScript (extract_script parseFloat_example) (Some throwing_page)
     = Resolved (ErrorObject ''querySelector is not a function'') \<and>
   currentBusiness waiting_hook = Some (listing ''Cafe Uno'' (Some ''1 Main St'') None) \<and>
   currentBusiness (extract_settled
      (executeJavaScript (extract_script parseFloat_example) (Some throwing_page)) waiting_hook) = None"
proof -
  have h: "derive_fields parseFloat_example throwing_page = Inl ''querySelector is not a function'' \<and>
      ExtractCall \<in> set (pending waiting_hook)"
    by (simp add: derive_throwing_page waiting_hook_def)
  note t = extraction_failure [where pf = parseFloat_example and p = throwing_page
        and st = waiting_hook and m = "''querySelector is not a function''",
        THEN conjunct1, THEN mp, OF h]
  have 1: "executeJavaScript (extract_script parseFloat_example) (Some throwing_page)
     = Resolved (ErrorObject ''querySelector is not a function'')"
    using t by blast
  have 2: "currentBusiness waiting_hook = Some (listing ''Cafe Uno'' (Some ''1 Main St'') None)"
    by (simp add: waiting_hook_def)
  have 3: "currentBusiness (extract_settled
      (executeJavaScript (extract_script parseFloat_example) (Some throwing_page)) waiting_hook) = None"
    using t by blast
  from 1 2 3 show ?thesis by blast
qed

section \<open>Session Controller: a failed save\<close>

text \<open>
  Claim C8. When the forward of a captured record to the persistence capability fails,
  the session list is not rolled back: the record appended at capture time is still in
  the list, and the list is the one of the run in which the forward succeeds.
\<close>

theorem failed_save_keeps_session_list:
  "savedBusinesses (save_settled (SaveFailed e) (capture_effect (Some cur) st))
     = savedBusinesses (save_settled SaveOk (capture_effect (Some cur) st)) \<and>
   savedBusinesses (save_settled SaveRejected (capture_effect (Some cur) st))
     = savedBusinesses (save_settled SaveOk (capture_effect (Some cur) st)) \<and>
   savedBusinesses (save_settled (SaveFailed e) (capture_effect (Some cur) st))
     = savedBusinesses (capture_effect (Some cur) st) \<and>
   ((\<forall>b \<in> set (savedBusinesses st). \<not> same_identity b cur) \<longrightarrow>
      savedBusinesses (save_settled (SaveFailed e) (capture_effect (Some cur) st))
        = savedBusinesses st @ [cur] \<and>
      forwarded (capture_effect (Some cur) st) = forwarded st @ [cur])"
proof -
  have keep: "savedBusinesses (save_settled r s) = savedBusinesses s" for r and s :: "'a app_state"
    by (cases r) (simp_all add: save_settled_def)
  have fw: "forwarded (capture_effect (Some cur) st) = forwarded st @ [cur]"
    if "\<forall>b \<in> set (savedBusinesses st). \<not> same_identity b cur"
    using that businessExists_None [of "savedBusinesses st" cur] by (simp add: capture_effect_def)
  show ?thesis
    by (simp add: keep capture_effect_saved fw)
qed

theorem failed_save_keeps_session_list_witness:
  "savedBusinesses (save_settled (SaveFailed ''network down'')
      (capture_effect (Some (listing ''Cafe Uno'' (Some ''1 Main St'') None)) initial_app))
     = [listing ''Cafe Uno'' (Some ''1 Main St'') None] \<and>
   savedBusinesses (save_settled SaveOk
      (capture_effect (Some (listing ''Cafe Uno'' (Some ''1 Main St'') None)) initial_app))
     = [listing ''Cafe Uno'' (Some ''1 Main St'') None]"
proof -
  let ?c = "listing ''Cafe Uno'' (Some ''1 Main St'') None"
  note t = failed_save_keeps_session_list [where e = "''network down''" and cur = ?c
      and st = "initial_app :: real app_state"]
  have h: "\<forall>b \<in> set (savedBusinesses (initial_app :: real app_state)). \<not> same_identity b ?c"
    by (simp add: initial_app_def)
  have 1: "savedBusinesses (save_settled (SaveFailed ''network down'')
      (capture_effect (Some ?c) initial_app)) = [?c]"
    using t [THEN conjunct2, THEN conjunct2, THEN conjunct2, THEN mp, OF h]
    by (simp add: initial_app_def)
  have 2: "savedBusinesses (save_settled SaveOk (capture_effect (Some ?c) initial_app)) = [?c]"
    using t [THEN conjunct1] 1 by simp
  from 1 2 show ?thesis by blast
qed

section \<open>Interaction Patcher: idempotence and frame\<close>

lemma length_update_first [simp]: "length (update_first P f xs) = length xs"
  by (induction xs) auto

lemma length_update_all [simp]: "length (update_all P f xs) = length xs"
  by (simp add: update_all_def)

lemma update_first_nth:
  "i < length xs \<Longrightarrow> update_first P f xs ! i = when (first_at P xs i) f (xs ! i)"
proof (induction xs arbitrary: i)
  case Nil
  then show ?case by simp
next
  case (Cons x xs)
  show ?case
  proof (cases i)
    case 0
    then show ?thesis by (simp add: first_at_def when_def)
  next
    case (Suc k)
    with Cons.prems have k: "k < length xs" by simp
    show ?thesis
    proof (cases "P x")
      case True
      then have "\<not> first_at P (x # xs) i" using Suc by (auto simp: first_at_def)
      with True Suc show ?thesis by (simp add: when_def)
    next
      case False
      then have "first_at P (x # xs) i = first_at P xs k"
        using Suc by (auto simp: first_at_def less_Suc_eq_0_disj)
      with False Suc Cons.IH [OF k] show ?thesis by simp
    qed
  qed
qed

lemma update_all_nth:
  "i < length xs \<Longrightarrow> update_all P f xs ! i = when (P (xs ! i)) f (xs ! i)"
  by (simp add: update_all_def when_def)

lemma shape_fix [simp]:
  "shape (fix_body el) = shape el"
  "shape (fix_mapElement el) = shape el"
  "shape (fix_zoomControl el) = shape el"
  "shape (fix_searchBar el) = shape el"
  "shape (fix_infoCard el) = shape el"
  by (simp_all add: shape_def fix_body_def fix_mapElement_def fix_zoomControl_def
      fix_searchBar_def fix_infoCard_def)

lemma shape_when: "(\<And>x. shape (f x) = shape x) \<Longrightarrow> shape (when c f x) = shape x"
  by (simp add: when_def)

lemma shape_fix_flags [simp]: "shape (fix_flags b m z s c el) = shape el"
  by (simp add: fix_flags_def shape_when)

lemma shape_selectors:
  assumes "shape x = shape y"
  shows "is_body x = is_body y" "is_searchBar x = is_searchBar y"
    "is_mapElement x = is_mapElement y" "is_zoomControl x = is_zoomControl y"
    "is_infoCard x = is_infoCard y" "targeted x = targeted y"
  using assms
  by (simp_all add: shape_def is_body_def is_searchBar_def is_mapElement_def is_zoomControl_def
      is_infoCard_def has_class_def targeted_def)

lemma fix_flags_idem: "fix_flags b m z s c (fix_flags b m z s c el) = fix_flags b m z s c el"
  by (cases b; cases m; cases z; cases s; cases c)
     (simp_all add: fix_flags_def when_def fix_body_def fix_mapElement_def fix_zoomControl_def
        fix_searchBar_def fix_infoCard_def)

lemma fix_at_idem: "fix_at fb fs (fix_at fb fs el) = fix_at fb fs el"
proof -
  have "shape (fix_at fb fs el) = shape el" by (simp add: fix_at_def)
  then have "is_mapElement (fix_at fb fs el) = is_mapElement el"
    "is_zoomControl (fix_at fb fs el) = is_zoomControl el"
    "is_infoCard (fix_at fb fs el) = is_infoCard el"
    by (rule shape_selectors)+
  then have "fix_at fb fs (fix_at fb fs el) =
      fix_flags fb (is_mapElement el) (is_zoomControl el) fs (is_infoCard el) (fix_at fb fs el)"
    by (simp add: fix_at_def [of fb fs "fix_at fb fs el"])
  then show ?thesis by (simp add: fix_at_def [of fb fs el] fix_flags_idem)
qed

lemma when_selector:
  assumes "\<And>x. shape (f x) = shape x"
  shows "is_mapElement (when c f x) = is_mapElement x"
    "is_zoomControl (when c f x) = is_zoomControl x"
    "is_infoCard (when c f x) = is_infoCard x"
    "is_searchBar (when c f x) = is_searchBar x"
    "is_body (when c f x) = is_body x"
  using shape_selectors [OF shape_when [of f c x, OF assms]] by blast+

lemma list_ex_first_at:
  "list_ex P xs = (\<exists>i<length xs. first_at P xs i)"
proof
  assume "list_ex P xs"
  then have ex: "\<exists>i. i < length xs \<and> P (xs ! i)"
    by (auto simp: list_ex_iff in_set_conv_nth)
  define k where "k = (LEAST i. i < length xs \<and> P (xs ! i))"
  from ex have kp: "k < length xs \<and> P (xs ! k)"
    unfolding k_def by (rule LeastI_ex)
  moreover have "\<not> P (xs ! j)" if "j < k" for j
  proof
    assume "P (xs ! j)"
    moreover from that kp have "j < length xs" by simp
    ultimately have "k \<le> j" unfolding k_def by (intro Least_le) simp
    with that show False by simp
  qed
  ultimately show "\<exists>i<length xs. first_at P xs i" by (auto simp: first_at_def)
next
  assume "\<exists>i<length xs. first_at P xs i"
  then show "list_ex P xs" by (auto simp: first_at_def list_ex_iff)
qed

lemma interaction_fixes_Inr:
  assumes "list_ex is_body d"
  shows "interaction_fixes d = Inr (update_all is_infoCard fix_infoCard
      (update_first is_searchBar fix_searchBar
        (update_all is_zoomControl fix_zoomControl
          (update_all is_mapElement fix_mapElement (update_first is_body fix_body d)))))"
  using assms by (simp add: interaction_fixes_def Let_def)

lemma patched_length [simp]: "length (patched d) = length d"
  by (cases "list_ex is_body d") (simp_all add: patched_def interaction_fixes_Inr, simp add: interaction_fixes_def)

lemma patched_nth:
  assumes b: "list_ex is_body d" and i: "i < length d"
  shows "patched d ! i = fix_at (first_at is_body d i) (first_at is_searchBar d i) (d ! i)"
proof -
  let ?d1 = "update_first is_body fix_body d"
  let ?d2 = "update_all is_mapElement fix_mapElement ?d1"
  let ?d3 = "update_all is_zoomControl fix_zoomControl ?d2"
  let ?d4 = "update_first is_searchBar fix_searchBar ?d3"
  let ?d5 = "update_all is_infoCard fix_infoCard ?d4"
  let ?fb = "first_at is_body d i" and ?fs = "first_at is_searchBar d i"
  let ?e1 = "when ?fb fix_body (d ! i)"
  let ?e2 = "when (is_mapElement (d ! i)) fix_mapElement ?e1"
  let ?e3 = "when (is_zoomControl (d ! i)) fix_zoomControl ?e2"
  let ?e4 = "when ?fs fix_searchBar ?e3"
  have n1: "?d1 ! j = when (first_at is_body d j) fix_body (d ! j)" if "j < length d" for j
    using that by (simp add: update_first_nth)
  have n2: "?d2 ! j = when (is_mapElement (d ! j)) fix_mapElement (?d1 ! j)" if "j < length d" for j
    using that by (simp add: update_all_nth n1 when_selector)
  have n3: "?d3 ! j = when (is_zoomControl (d ! j)) fix_zoomControl (?d2 ! j)" if "j < length d" for j
    using that by (simp add: update_all_nth [of j ?d2] n2 n1 when_selector)
  have s3: "is_searchBar (?d3 ! j) = is_searchBar (d ! j)" if "j < length d" for j
    using that by (simp add: n3 n2 n1 when_selector)
  have f3: "first_at is_searchBar ?d3 i = ?fs"
    using i s3 by (auto simp: first_at_def)
  have n4: "?d4 ! i = when ?fs fix_searchBar (?d3 ! i)"
    using i by (simp add: update_first_nth [of i ?d3] f3)
  have c4: "is_infoCard (?d4 ! i) = is_infoCard (d ! i)"
    using i by (simp add: n4 n3 n2 n1 when_selector)
  have n5: "?d5 ! i = when (is_infoCard (d ! i)) fix_infoCard (?d4 ! i)"
    using i by (simp add: update_all_nth [of i ?d4] c4)
  have "patched d = ?d5" using b by (simp add: patched_def interaction_fixes_Inr)
  then show ?thesis
    using i by (simp add: n5 n4 n3 n2 n1 fix_at_def fix_flags_def)
qed

lemma patched_shape:
  assumes "i < length d"
  shows "shape (patched d ! i) = shape (d ! i)"
proof (cases "list_ex is_body d")
  case True
  with assms show ?thesis by (simp add: patched_nth fix_at_def)
next
  case False
  then show ?thesis by (simp add: patched_def interaction_fixes_def)
qed

lemma patched_first_at:
  assumes "i < length d" "\<And>x y. shape x = shape y \<Longrightarrow> P x = P y"
  shows "first_at P (patched d) i = first_at P d i"
proof -
  have "P (patched d ! j) = P (d ! j)" if "j < length d" for j
    using that by (intro assms(2) patched_shape)
  with assms(1) show ?thesis by (auto simp: first_at_def)
qed

lemma patched_idem: "patched (patched d) = patched d"
proof (cases "list_ex is_body d")
  case False
  then show ?thesis by (simp add: patched_def interaction_fixes_def)
next
  case True
  then obtain k where k: "k < length d" "first_at is_body d k"
    by (auto simp: list_ex_first_at)
  have "first_at is_body (patched d) k = first_at is_body d k"
    using k(1) by (rule patched_first_at) (rule shape_selectors(1))
  with k have "first_at is_body (patched d) k" by simp
  with k have b': "list_ex is_body (patched d)"
    by (auto simp: list_ex_first_at)
  show ?thesis
  proof (rule nth_equalityI)
    show "length (patched (patched d)) = length (patched d)" by simp
    fix i assume "i < length (patched (patched d))"
    then have i: "i < length d" by simp
    have fb: "first_at is_body (patched d) i = first_at is_body d i"
      using i by (rule patched_first_at) (rule shape_selectors(1))
    have fs: "first_at is_searchBar (patched d) i = first_at is_searchBar d i"
      using i by (rule patched_first_at) (rule shape_selectors(2))
    have "patched (patched d) ! i =
        fix_at (first_at is_body d i) (first_at is_searchBar d i) (patched d ! i)"
      using b' i by (simp add: patched_nth [of "patched d"] fb fs)
    then show "patched (patched d) ! i = patched d ! i"
      using True i by (simp add: patched_nth [of d] fix_at_idem)
  qed
qed

lemma patched_frame:
  assumes "i < length d" "\<not> targeted (d ! i)" "\<not> first_at is_body d i"
  shows "patched d ! i = d ! i"
proof (cases "list_ex is_body d")
  case False
  then show ?thesis by (simp add: patched_def interaction_fixes_def)
next
  case True
  from assms(2) have "\<not> first_at is_searchBar d i"
    by (simp add: first_at_def targeted_def)
  with assms True show ?thesis
    by (simp add: patched_nth fix_at_def fix_flags_def when_def targeted_def)
qed

lemma patched_body:
  assumes "i < length d" "\<not> targeted (d ! i)" "first_at is_body d i"
  shows "patched d ! i = fix_body (d ! i)"
proof -
  from assms have "list_ex is_body d" by (auto simp: list_ex_first_at)
  moreover from assms(2) have "\<not> first_at is_searchBar d i"
    by (simp add: first_at_def targeted_def)
  ultimately show ?thesis
    using assms by (simp add: patched_nth fix_at_def fix_flags_def when_def targeted_def)
qed

text \<open>
  A body element that no selector matches, with the cursor \<^verbatim>\<open>wait\<close>: one run of the patch
  sets its cursor to \<^verbatim>\<open>auto\<close>, so an element outside the fixed selectors is changed.
\<close>

theorem patch_changes_unmatched_body:
  "\<not> targeted (plain ''body'' [] [] None) \<and>
   cursor (style (plain ''body'' [] [] None)) = ''wait'' \<and>
   patched [plain ''body'' [] [] None] =
     [\<lparr>tag = ''body'', elem_id = [], classes = [], role = None,
       style = \<lparr>cursor = ''auto'', pointerEvents = ''none'', touchAction = ''none''\<rparr>\<rparr>] \<and>
   patched [plain ''body'' [] [] None] \<noteq> [plain ''body'' [] [] None]"
  by (simp add: patched_def interaction_fixes_def update_all_def plain_def targeted_def
      is_body_def is_searchBar_def is_mapElement_def is_zoomControl_def is_infoCard_def
      has_class_def fix_body_def)

text \<open>
  Claim C9 (amended). Running the Interaction Patcher twice leaves the document in the
  style state that one run leaves it in. A run keeps the number of elements and each
  element's tag, id, classes and role. Every element that is not the document's body and
  that none of the fixed selectors matches is left unchanged; the body, when no selector
  matches it, has its cursor set to \<^verbatim>\<open>auto\<close> and nothing else changed.
\<close>

theorem patch_idempotent:
  "patched (patched d) = patched d \<and>
   length (patched d) = length d \<and>
   (\<forall>i<length d. shape (patched d ! i) = shape (d ! i)) \<and>
   (\<forall>i<length d. \<not> targeted (d ! i) \<and> \<not> first_at is_body d i \<longrightarrow> patched d ! i = d ! i) \<and>
   (\<forall>i<length d. \<not> targeted (d ! i) \<and> first_at is_body d i \<longrightarrow> patched d ! i = fix_body (d ! i))"
  by (simp add: patched_idem patched_shape patched_frame patched_body)

theorem patch_idempotent_witness:
  "patched (patched example_document) = patched example_document \<and>
   patched example_document ! 0 = plain ''div'' ''sidebar'' [''panel''] None \<and>
   patched example_document ! Suc 0 = fix_body (plain ''body'' [] [] None)"
proof -
  note t = patch_idempotent [where d = example_document]
  have len: "length example_document = 5" by (simp add: example_document_def)
  have s0: "\<not> targeted (example_document ! 0) \<and> \<not> first_at is_body example_document 0"
    by (simp add: example_document_def plain_def targeted_def first_at_def is_body_def
        is_searchBar_def is_mapElement_def is_zoomControl_def is_infoCard_def has_class_def)
  have s1: "\<not> targeted (example_document ! Suc 0) \<and> first_at is_body example_document (Suc 0)"
    by (simp add: example_document_def plain_def targeted_def first_at_def is_body_def
        is_searchBar_def is_mapElement_def is_zoomControl_def is_infoCard_def has_class_def)
  have 1: "patched (patched example_document) = patched example_document"
    using t by blast
  have "patched example_document ! 0 = example_document ! 0"
    using t s0 len by simp
  then have 2: "patched example_document ! 0 = plain ''div'' ''sidebar'' [''panel''] None"
    by (simp add: example_document_def)
  have "patched example_document ! Suc 0 = fix_body (example_document ! Suc 0)"
    using t s1 len by simp
  then have 3: "patched example_document ! Suc 0 = fix_body (plain ''body'' [] [] None)"
    by (simp add: example_document_def)
  from 1 2 3 show ?thesis by blast
qed

section \<open>Business Extractor: coordinates from the URL\<close>

lemma digit_simps [simp]:
  "\<not> digit CHR ''@''" "\<not> digit CHR '',''" "\<not> digit CHR ''.''" "\<not> digit CHR ''-''"
  by (simp_all add: digit_def)

lemma startsWith_minus: "startsWith s ''-'' = (\<exists>r. s = CHR ''-'' # r)"
  by (cases s) auto

lemma unsigned_decimal_iff:
  "unsigned_decimal s =
     (\<exists>ip fp. ip \<noteq> [] \<and> fp \<noteq> [] \<and> list_all digit ip \<and> list_all digit fp \<and> s = ip @ ''.'' @ fp)"
proof
  assume u: "unsigned_decimal s"
  let ?ip = "takeWhile (\<lambda>c. c \<noteq> CHR ''.'') s" and ?r = "dropWhile (\<lambda>c. c \<noteq> CHR ''.'') s"
  from u have a: "?ip \<noteq> []" "list_all digit ?ip" "?r \<noteq> []" "tl ?r \<noteq> []" "list_all digit (tl ?r)"
    by (simp_all add: unsigned_decimal_def Let_def)
  from a(3) have "hd ?r = CHR ''.''" using hd_dropWhile [of "\<lambda>c. c \<noteq> CHR ''.''" s] by simp
  with a(3) have "?r = ''.'' @ tl ?r" by (cases ?r) simp_all
  then have "s = ?ip @ ''.'' @ tl ?r" using takeWhile_dropWhile_id [of "\<lambda>c. c \<noteq> CHR ''.''" s] by simp
  with a show "\<exists>ip fp. ip \<noteq> [] \<and> fp \<noteq> [] \<and> list_all digit ip \<and> list_all digit fp \<and> s = ip @ ''.'' @ fp"
    by blast
next
  assume "\<exists>ip fp. ip \<noteq> [] \<and> fp \<noteq> [] \<and> list_all digit ip \<and> list_all digit fp \<and> s = ip @ ''.'' @ fp"
  then obtain ip fp where h: "ip \<noteq> []" "fp \<noteq> []" "list_all digit ip" "list_all digit fp"
    "s = ip @ ''.'' @ fp" by blast
  from h(3) have nd: "\<forall>c \<in> set ip. c \<noteq> CHR ''.''" by (auto simp: list_all_iff)
  then have "takeWhile (\<lambda>c. c \<noteq> CHR ''.'') s = ip" "dropWhile (\<lambda>c. c \<noteq> CHR ''.'') s = ''.'' @ fp"
    using h(5) by (simp_all add: takeWhile_append1 [where x = "CHR ''.''"] dropWhile_append3)
  with h show "unsigned_decimal s" by (simp add: unsigned_decimal_def Let_def)
qed

lemma takeWhile_digits:
  "list_all digit ip \<Longrightarrow> takeWhile digit (ip @ r) = ip @ takeWhile digit r"
  by (simp add: list_all_iff)

lemma dropWhile_digits:
  "list_all digit ip \<Longrightarrow> dropWhile digit (ip @ r) = dropWhile digit r"
  by (simp add: list_all_iff)

lemma match_number_positive:
  assumes "\<not> startsWith s ''-''"
  shows "match_number s =
     (if takeWhile digit s = [] then None
      else (case dropWhile digit s of
              [] \<Rightarrow> None
            | c # s3 \<Rightarrow>
                if c \<noteq> CHR ''.'' \<or> takeWhile digit s3 = [] then None
                else Some (takeWhile digit s @ CHR ''.'' # takeWhile digit s3, dropWhile digit s3)))"
  using assms by (cases "dropWhile digit s") (simp_all add: match_number_def Let_def del: dropWhile_eq_Nil_conv)

lemma match_number_negative:
  "match_number (CHR ''-'' # s) =
     (if takeWhile digit s = [] then None
      else (case dropWhile digit s of
              [] \<Rightarrow> None
            | c # s3 \<Rightarrow>
                if c \<noteq> CHR ''.'' \<or> takeWhile digit s3 = [] then None
                else Some (CHR ''-'' # takeWhile digit s @ CHR ''.'' # takeWhile digit s3,
                           dropWhile digit s3)))"
  by (cases "dropWhile digit s") (simp_all add: match_number_def Let_def del: dropWhile_eq_Nil_conv)

lemma match_number_unsigned:
  assumes "ip \<noteq> []" "fp \<noteq> []" "list_all digit ip" "list_all digit fp"
  shows "match_number (ip @ CHR ''.'' # fp @ r) =
           Some (ip @ CHR ''.'' # fp @ takeWhile digit r, dropWhile digit r)"
    and "match_number (CHR ''-'' # ip @ CHR ''.'' # fp @ r) =
           Some (CHR ''-'' # ip @ CHR ''.'' # fp @ takeWhile digit r, dropWhile digit r)"
proof -
  from assms(1,3) have "digit (hd ip)" by (cases ip) simp_all
  with assms(1) have ns: "\<not> startsWith (ip @ CHR ''.'' # fp @ r) ''-''"
    by (cases ip) auto
  have t1: "takeWhile digit (ip @ CHR ''.'' # fp @ r) = ip"
    and d1: "dropWhile digit (ip @ CHR ''.'' # fp @ r) = CHR ''.'' # fp @ r"
    using assms(3) by (simp_all add: takeWhile_digits dropWhile_digits)
  have t2: "takeWhile digit (fp @ r) = fp @ takeWhile digit r"
    and d2: "dropWhile digit (fp @ r) = dropWhile digit r"
    using assms(4) by (simp_all add: takeWhile_digits dropWhile_digits)
  show "match_number (ip @ CHR ''.'' # fp @ r) =
           Some (ip @ CHR ''.'' # fp @ takeWhile digit r, dropWhile digit r)"
    using assms(1,2) by (simp add: match_number_positive [OF ns] t1 d1 t2 d2)
  show "match_number (CHR ''-'' # ip @ CHR ''.'' # fp @ r) =
           Some (CHR ''-'' # ip @ CHR ''.'' # fp @ takeWhile digit r, dropWhile digit r)"
    using assms(1,2) by (simp add: match_number_negative t1 d1 t2 d2)
qed

lemma decimal_iff:
  "decimal s =
     (\<exists>ip fp. ip \<noteq> [] \<and> fp \<noteq> [] \<and> list_all digit ip \<and> list_all digit fp \<and>
        (s = ip @ CHR ''.'' # fp \<or> s = CHR ''-'' # ip @ CHR ''.'' # fp))"
proof (cases "startsWith s ''-''")
  case True
  then obtain r where r: "s = CHR ''-'' # r" by (auto simp: startsWith_minus)
  have "\<not> (list_all digit ip \<and> ip \<noteq> [] \<and> s = ip @ CHR ''.'' # fp)" for ip fp
    using r by (cases ip) auto
  then show ?thesis using True r by (auto simp: decimal_def unsigned_decimal_iff)
next
  case False
  then have "s \<noteq> CHR ''-'' # r" for r by (auto simp: startsWith_minus)
  then show ?thesis using False by (auto simp: decimal_def unsigned_decimal_iff)
qed

lemma match_number_decimal:
  assumes "decimal n"
  shows "match_number (n @ r) = Some (n @ takeWhile digit r, dropWhile digit r)"
  using assms match_number_unsigned [where r = r] by (auto simp: decimal_iff)

lemma match_number_sound:
  assumes "match_number s = Some (n, r)"
  shows "s = n @ r \<and> decimal n \<and> (r = [] \<or> \<not> digit (hd r))"
proof -
  have pos: "s = n @ r \<and> (\<exists>ip fp. ip \<noteq> [] \<and> fp \<noteq> [] \<and> list_all digit ip \<and> list_all digit fp \<and>
        n = ip @ CHR ''.'' # fp) \<and> (r = [] \<or> \<not> digit (hd r))"
    if m: "(if takeWhile digit s = [] then None
      else (case dropWhile digit s of
              [] \<Rightarrow> None
            | c # s3 \<Rightarrow>
                if c \<noteq> CHR ''.'' \<or> takeWhile digit s3 = [] then None
                else Some (takeWhile digit s @ CHR ''.'' # takeWhile digit s3, dropWhile digit s3))) = Some (n, r)"
    for s n r
  proof -
    from m obtain s3 where a: "takeWhile digit s \<noteq> []" "dropWhile digit s = CHR ''.'' # s3"
      "takeWhile digit s3 \<noteq> []" "n = takeWhile digit s @ CHR ''.'' # takeWhile digit s3"
      "r = dropWhile digit s3"
      by (cases "dropWhile digit s") (auto split: if_splits simp del: dropWhile_eq_Nil_conv)
    have "s = takeWhile digit s @ dropWhile digit s" by simp
    also have "\<dots> = takeWhile digit s @ CHR ''.'' # (takeWhile digit s3 @ dropWhile digit s3)"
      using a(2) by simp
    finally have "s = n @ r" using a(4,5) by simp
    moreover have "list_all digit (takeWhile digit s)" "list_all digit (takeWhile digit s3)"
      by (auto simp: list_all_iff dest: set_takeWhileD)
    moreover have "r = [] \<or> \<not> digit (hd r)"
      using a(5) hd_dropWhile [of digit s3] by auto
    ultimately show ?thesis using a by blast
  qed
  show ?thesis
  proof (cases "startsWith s ''-''")
    case False
    from pos [OF assms [unfolded match_number_positive [OF False]]]
    show ?thesis by (auto simp: decimal_iff)
  next
    case True
    then obtain t where t: "s = CHR ''-'' # t" by (auto simp: startsWith_minus)
    from assms obtain n' where n': "n = CHR ''-'' # n'"
      unfolding t match_number_negative
      by (cases "dropWhile digit t") (auto split: if_splits simp del: dropWhile_eq_Nil_conv)
    from assms have "(if takeWhile digit t = [] then None
      else (case dropWhile digit t of
              [] \<Rightarrow> None
            | c # s3 \<Rightarrow>
                if c \<noteq> CHR ''.'' \<or> takeWhile digit s3 = [] then None
                else Some (takeWhile digit t @ CHR ''.'' # takeWhile digit s3, dropWhile digit s3))) = Some (n', r)"
      unfolding t n' match_number_negative
      by (cases "dropWhile digit t") (auto split: if_splits simp del: dropWhile_eq_Nil_conv)
    from pos [OF this] show ?thesis unfolding t n' by (auto simp: decimal_iff)
  qed
qed

lemma takeWhile_at [simp]: "takeWhile digit (s @ CHR ''@'' # t) = takeWhile digit s"
  by (induction s) simp_all

lemma dropWhile_at [simp]: "dropWhile digit (s @ CHR ''@'' # t) = dropWhile digit s @ CHR ''@'' # t"
  by (induction s) simp_all

lemma scan_at:
  "(if takeWhile digit (s @ CHR ''@'' # t) = [] then None
      else (case dropWhile digit (s @ CHR ''@'' # t) of
              [] \<Rightarrow> None
            | c # s3 \<Rightarrow>
                if c \<noteq> CHR ''.'' \<or> takeWhile digit s3 = [] then None
                else Some (k (takeWhile digit (s @ CHR ''@'' # t) @ CHR ''.'' # takeWhile digit s3),
                           dropWhile digit s3)))
   = map_option (\<lambda>(n, r). (n, r @ CHR ''@'' # t))
      (if takeWhile digit s = [] then None
      else (case dropWhile digit s of
              [] \<Rightarrow> None
            | c # s3 \<Rightarrow>
                if c \<noteq> CHR ''.'' \<or> takeWhile digit s3 = [] then None
                else Some (k (takeWhile digit s @ CHR ''.'' # takeWhile digit s3), dropWhile digit s3)))"
  by (cases "dropWhile digit s") (simp_all del: dropWhile_eq_Nil_conv)

lemma match_number_at:
  "match_number (s @ CHR ''@'' # t) = map_option (\<lambda>(n, r). (n, r @ CHR ''@'' # t)) (match_number s)"
proof (cases "startsWith s ''-''")
  case True
  then obtain s' where s': "s = CHR ''-'' # s'" by (auto simp: startsWith_minus)
  show ?thesis
    unfolding s' append_Cons match_number_negative
    by (rule scan_at [where k = "\<lambda>x. CHR ''-'' # x"])
next
  case False
  then have ns: "\<not> startsWith (s @ CHR ''@'' # t) ''-''" by (cases s) auto
  show ?thesis
    unfolding match_number_positive [OF False] match_number_positive [OF ns]
    by (rule scan_at [where k = "\<lambda>x. x"])
qed

lemma match_here_at:
  assumes "s \<noteq> []"
  shows "match_here (s @ CHR ''@'' # t) = match_here s"
proof -
  from assms obtain c s1 where s: "s = c # s1" by (cases s) auto
  show ?thesis
  proof (cases "match_number s1")
    case None
    then show ?thesis by (simp add: s match_here_def match_number_at)
  next
    case (Some a)
    obtain lat s2 where a: "a = (lat, s2)" by (cases a)
    show ?thesis
    proof (cases s2)
      case Nil
      with Some a show ?thesis by (simp add: s match_here_def match_number_at)
    next
      case (Cons d s3)
      with Some a show ?thesis
        by (cases "match_number s3") (auto simp: s match_here_def match_number_at)
    qed
  qed
qed

lemma match_here_sound:
  assumes "match_here s = Some (lat, lng)"
  shows "\<exists>post. s = CHR ''@'' # lat @ CHR '','' # lng @ post \<and> decimal lat \<and> decimal lng \<and>
           (post = [] \<or> \<not> digit (hd post))"
proof -
  from assms obtain s1 s3 s4 where s1: "s = CHR ''@'' # s1"
    and m1: "match_number s1 = Some (lat, CHR '','' # s3)"
    and m2: "match_number s3 = Some (lng, s4)"
    by (auto simp: match_here_def split: list.splits if_splits option.splits prod.splits)
  from match_number_sound [OF m1] match_number_sound [OF m2] s1
  show ?thesis by auto
qed

lemma match_here_complete:
  assumes "decimal lat" "decimal lng"
  shows "match_here (CHR ''@'' # lat @ CHR '','' # lng @ post) = Some (lat, lng @ takeWhile digit post)"
  using match_number_decimal [OF assms(1), of "CHR '','' # lng @ post"]
    match_number_decimal [OF assms(2), of post]
  by (simp add: match_here_def)

lemma match_here_Nil [simp]: "match_here [] = None"
  by (simp add: match_here_def)

lemma coordsMatch_first:
  assumes "coordsMatch s = Some m"
  shows "\<exists>pre rest. s = pre @ rest \<and> match_here rest = Some m \<and> coordsMatch pre = None"
  using assms
proof (induction s)
  case Nil
  then show ?case by simp
next
  case (Cons c s)
  show ?case
  proof (cases "match_here (c # s)")
    case (Some a)
    with Cons.prems have "match_here (c # s) = Some m" by simp
    then have "c # s = [] @ (c # s) \<and> match_here (c # s) = Some m \<and> coordsMatch [] = None" by simp
    then show ?thesis by blast
  next
    case None
    with Cons.prems have "coordsMatch s = Some m" by simp
    then obtain pre rest where p: "s = pre @ rest" "match_here rest = Some m" "coordsMatch pre = None"
      using Cons.IH by blast
    obtain lat lng where m: "m = (lat, lng)" by (cases m)
    from match_here_sound [OF p(2) [unfolded m]] obtain t where t: "rest = CHR ''@'' # t" by auto
    have "match_here (c # pre) = None"
      using None match_here_at [of "c # pre" t] by (simp add: p(1) t)
    with p(3) have "coordsMatch (c # pre) = None" by simp
    with p(1,2) have "c # s = (c # pre) @ rest \<and> match_here rest = Some m \<and> coordsMatch (c # pre) = None"
      by simp
    then show ?thesis by blast
  qed
qed

lemma coordsMatch_skip:
  assumes "coordsMatch pre = None"
  shows "coordsMatch (pre @ CHR ''@'' # t) = coordsMatch (CHR ''@'' # t)"
  using assms
proof (induction pre)
  case Nil
  then show ?case by simp
next
  case (Cons c pre)
  from Cons.prems have n: "match_here (c # pre) = None" "coordsMatch pre = None"
    by (auto split: option.splits)
  have "match_here (c # pre @ CHR ''@'' # t) = None"
    using n(1) match_here_at [of "c # pre" t] by simp
  with Cons.IH [OF n(2)] show ?case by simp
qed

lemma coordsMatch_found:
  assumes "match_here rest = Some m"
  shows "coordsMatch (pre @ rest) \<noteq> None"
proof (induction pre)
  case Nil
  from assms obtain c r where "rest = c # r" by (cases rest) auto
  with assms show ?case by simp
next
  case (Cons c pre)
  then show ?case by (cases "match_here (c # pre @ rest)") simp_all
qed

lemma coordsMatch_None_iff: "(coordsMatch url = None) = (\<not> has_coords url)"
proof
  assume n: "coordsMatch url = None"
  show "\<not> has_coords url"
  proof
    assume "has_coords url"
    then obtain pre lat lng post where u: "url = pre @ ''@'' @ lat @ '','' @ lng @ post"
      "decimal lat" "decimal lng" by (auto simp: has_coords_def)
    from match_here_complete [OF u(2,3), of post]
    have "coordsMatch (pre @ CHR ''@'' # lat @ CHR '','' # lng @ post) \<noteq> None"
      by (rule coordsMatch_found)
    with n u(1) show False by simp
  qed
next
  assume h: "\<not> has_coords url"
  show "coordsMatch url = None"
  proof (rule ccontr)
    assume "coordsMatch url \<noteq> None"
    then obtain lat lng where "coordsMatch url = Some (lat, lng)" by auto
    from coordsMatch_first [OF this] obtain pre rest where
      p: "url = pre @ rest" "match_here rest = Some (lat, lng)" by blast
    from match_here_sound [OF p(2)] obtain post where
      "rest = CHR ''@'' # lat @ CHR '','' # lng @ post" "decimal lat" "decimal lng" by blast
    with p(1) have "url = pre @ ''@'' @ lat @ '','' @ lng @ post \<and> decimal lat \<and> decimal lng" by simp
    then have "has_coords url" unfolding has_coords_def by blast
    with h show False by simp
  qed
qed

lemma coordsMatch_leftmost:
  assumes "decimal lat" "decimal lng" "\<not> has_coords pre"
  shows "coordsMatch (pre @ ''@'' @ lat @ '','' @ lng @ post) = Some (lat, lng @ takeWhile digit post)"
proof -
  from assms(3) have "coordsMatch pre = None" by (simp add: coordsMatch_None_iff)
  from coordsMatch_skip [OF this, of "lat @ CHR '','' # lng @ post"]
  show ?thesis using match_here_complete [OF assms(1,2), of post] by simp
qed

lemma coordsMatch_Some:
  assumes "coordsMatch url = Some (lat, lng)"
  shows "\<exists>pre post. url = pre @ ''@'' @ lat @ '','' @ lng @ post \<and> decimal lat \<and> decimal lng \<and>
           \<not> has_coords pre \<and> (post = [] \<or> \<not> digit (hd post))"
proof -
  from coordsMatch_first [OF assms] obtain pre rest where
    p: "url = pre @ rest" "match_here rest = Some (lat, lng)" "coordsMatch pre = None" by blast
  from match_here_sound [OF p(2)] obtain post where
    r: "rest = CHR ''@'' # lat @ CHR '','' # lng @ post" "decimal lat" "decimal lng"
       "post = [] \<or> \<not> digit (hd post)" by blast
  from p(3) have "\<not> has_coords pre" by (simp add: coordsMatch_None_iff)
  with p(1) r have "url = pre @ ''@'' @ lat @ '','' @ lng @ post \<and> decimal lat \<and> decimal lng \<and>
           \<not> has_coords pre \<and> (post = [] \<or> \<not> digit (hd post))" by simp
  then show ?thesis by blast
qed

lemma derive_fields_coordinates:
  assumes "derive_fields pf p = Inr r" "location_href p = Inr url"
  shows "coordinates r = coordinates_of pf url"
  using derive_fields_complete [OF assms(1)] assms(2) by auto

text \<open>
  An address with two signatures: it contains \<^verbatim>\<open>@40.7128,-74.0060\<close>, and the texts handed
  to \<^verbatim>\<open>parseFloat\<close> are those of the earlier signature, \<^verbatim>\<open>1.5\<close> and \<^verbatim>\<open>2.5\<close>.
\<close>

theorem coordinates_not_of_every_occurrence:
  "twice_url = ''https://www.google.com/maps/search/@1.5,2.5/'' @ ''@'' @ ''40.7128'' @ '','' @
      ''-74.0060'' @ '',15z'' \<and>
   decimal ''40.7128'' \<and> decimal ''-74.0060'' \<and>
   coordinates_of (\<lambda>text. text) twice_url = Some (''1.5'', ''2.5'')"
  by (simp add: twice_url_def coordinates_of_def decimal_def unsigned_decimal_def
      match_here_def match_number_def digit_def)

text \<open>
  Claim C3 (amended). The coordinates are null exactly when the URL contains no signature
  \<^verbatim>\<open>@<lat>,<lng>\<close>. When it contains one, the coordinates are \<^verbatim>\<open>parseFloat\<close> of the two
  numbers of the leftmost signature, the second number taken with every digit that
  follows it. Whatever is returned comes from two complete numbers of the URL, and it is
  what the extracted record carries as its coordinates.
\<close>

theorem coordinates_leftmost:
  "(coordinates_of pf url = None) = (\<not> has_coords url) \<and>
   (decimal lat \<and> decimal lng \<and> \<not> has_coords pre \<longrightarrow>
      coordinates_of pf (pre @ ''@'' @ lat @ '','' @ lng @ post)
        = Some (pf lat, pf (lng @ takeWhile digit post))) \<and>
   (coordinates_of pf url = Some c \<longrightarrow>
      (\<exists>pre lat lng post. url = pre @ ''@'' @ lat @ '','' @ lng @ post \<and> decimal lat \<and>
         decimal lng \<and> \<not> has_coords pre \<and> (post = [] \<or> \<not> digit (hd post)) \<and>
         c = (pf lat, pf lng))) \<and>
   (derive_fields pf p = Inr r \<and> location_href p = Inr url \<longrightarrow>
      coordinates r = coordinates_of pf url)"
proof (intro conjI impI)
  show "(coordinates_of pf url = None) = (\<not> has_coords url)"
    using coordsMatch_None_iff [of url]
    by (cases "coordsMatch url") (auto simp: coordinates_of_def)
  show "coordinates_of pf (pre @ ''@'' @ lat @ '','' @ lng @ post)
        = Some (pf lat, pf (lng @ takeWhile digit post))"
    if "decimal lat \<and> decimal lng \<and> \<not> has_coords pre"
    using that coordsMatch_leftmost [of lat lng pre post] by (simp add: coordinates_of_def)
  show "\<exists>pre lat lng post. url = pre @ ''@'' @ lat @ '','' @ lng @ post \<and> decimal lat \<and>
         decimal lng \<and> \<not> has_coords pre \<and> (post = [] \<or> \<not> digit (hd post)) \<and>
         c = (pf lat, pf lng)"
    if h: "coordinates_of pf url = Some c"
  proof -
    from h obtain g1 g2 where g: "coordsMatch url = Some (g1, g2)" "c = (pf g1, pf g2)"
      by (cases "coordsMatch url") (auto simp: coordinates_of_def)
    from coordsMatch_Some [OF g(1)] g(2) show ?thesis by blast
  qed
  show "coordinates r = coordinates_of pf url"
    if "derive_fields pf p = Inr r \<and> location_href p = Inr url"
    using that derive_fields_coordinates [of pf p r url] by blast
qed

theorem coordinates_leftmost_witness:
  "coordinates_of parseFloat_example example_url = Some (40.7128, - 74.0060) \<and>
   coordinates_of parseFloat_example ''https://www.google.com/maps/place/Cafe+Uno/'' = None \<and>
   coordinates (projr (derive_fields parseFloat_example example_page)) = Some (40.7128, - 74.0060)"
proof -
  let ?pre = "''https://www.google.com/maps/place/Cafe+Uno/''"
  have n: "coordinates_of parseFloat_example ?pre = None"
    by (simp add: coordinates_of_def match_here_def)
  have np: "\<not> has_coords ?pre"
    using coordinates_leftmost [where pf = parseFloat_example and url = ?pre, THEN conjunct1] n
    by simp
  have d: "decimal ''40.7128'' \<and> decimal ''-74.0060'' \<and> \<not> has_coords ?pre"
    using np by (simp add: decimal_def unsigned_decimal_def digit_def)
  have u: "example_url = ?pre @ ''@'' @ ''40.7128'' @ '','' @ ''-74.0060'' @ '',17z''"
    by (simp add: example_url_def)
  have 1: "coordinates_of parseFloat_example example_url = Some (40.7128, - 74.0060)"
    using coordinates_leftmost [where pf = parseFloat_example and lat = "''40.7128''"
        and lng = "''-74.0060''" and pre = ?pre and post = "'',17z''",
        THEN conjunct2, THEN conjunct1, THEN mp, OF d]
    unfolding u by (simp add: parseFloat_example_def digit_def)
  have r: "derive_fields parseFloat_example example_page =
      Inr (projr (derive_fields parseFloat_example example_page))"
    by (simp add: derive_fields_def example_page_def label_text_def website_of_def truthy_def)
  have h: "derive_fields parseFloat_example example_page =
      Inr (projr (derive_fields parseFloat_example example_page)) \<and>
      location_href example_page = Inr example_url"
    using r by (simp add: example_page_def example_url_def)
  have 3: "coordinates (projr (derive_fields parseFloat_example example_page)) = Some (40.7128, - 74.0060)"
    using coordinates_leftmost [where pf = parseFloat_example and p = example_page
        and r = "projr (derive_fields parseFloat_example example_page)" and url = example_url,
        THEN conjunct2, THEN conjunct2, THEN conjunct2, THEN mp, OF h] 1
    by simp
  from 1 n 3 show ?thesis by blast
qed

section \<open>Export: validation and the bounds of the range query\<close>

lemma includes_point: "includes_str s ''.'' = (CHR ''.'' \<in> set s)"
  by (induction s) (auto simp: startsWith_iff)

text \<open>
  An export with the start \<^verbatim>\<open>garbage\<close>, which does not parse: the handler passes both of
  its checks and calls the range query function, which asks for the client first. With a
  client the user sees the fetch failure of the invalid time value; without one the
  promise is rejected and nothing is shown.
\<close>

theorem unparseable_start_not_rejected:
  "Date (example_env True) ''garbage'' = None \<and>
   handleExportArchiveByTimestampRange (example_env True) ''garbage'' ''2024-01-01T10:05''
     = [GetClient, Alert ''Failed to fetch businesses from archive: RangeError: Invalid time value''] \<and>
   handleExportArchiveByTimestampRange (example_env False) ''garbage'' ''2024-01-01T10:05''
     = [GetClient]"
  by (simp add: handleExportArchiveByTimestampRange_def getBusinessesFromDateRange_def
      example_env_def example_Date_def date_gt_def start_text_def end_text_def)

text \<open>
  Claim C4 (amended). When either input of the export is empty, or both parse as
  date-times and the start is after the end, the export path shows a validation message
  and does nothing else: no request for the client, no range query, no file export.
\<close>

theorem export_validation:
  "(s = [] \<or> e = [] \<longrightarrow> handleExportArchiveByTimestampRange env s e = [Alert select_alert]) \<and>
   (s \<noteq> [] \<and> e \<noteq> [] \<and> Date env s = Some a \<and> Date env e = Some b \<and> b < a \<longrightarrow>
      handleExportArchiveByTimestampRange env s e = [Alert order_alert]) \<and>
   (s = [] \<or> e = [] \<or> (Date env s = Some a \<and> Date env e = Some b \<and> b < a) \<longrightarrow>
      list_all is_alert (handleExportArchiveByTimestampRange env s e) \<and>
      \<not> list_ex is_query (handleExportArchiveByTimestampRange env s e) \<and>
      length (handleExportArchiveByTimestampRange env s e) = 1)"
  by (auto simp: handleExportArchiveByTimestampRange_def date_gt_def)

theorem export_validation_witness:
  "handleExportArchiveByTimestampRange (example_env False) [] ''2024-01-01T10:05'' = [Alert select_alert] \<and>
   handleExportArchiveByTimestampRange (example_env False) ''2024-01-01T10:05'' ''2024-01-01T10:00''
     = [Alert order_alert]"
proof -
  have h: "''2024-01-01T10:05'' \<noteq> [] \<and> ''2024-01-01T10:00'' \<noteq> [] \<and>
      Date (example_env False) ''2024-01-01T10:05'' = Some 1704103500000 \<and>
      Date (example_env False) ''2024-01-01T10:00'' = Some 1704103200000 \<and>
      (1704103200000 :: int) < 1704103500000"
    by (simp add: example_env_def example_Date_def)
  have 1: "handleExportArchiveByTimestampRange (example_env False) [] ''2024-01-01T10:05''
      = [Alert select_alert]"
    using export_validation [where env = "example_env False" and s = "[]"
        and e = "''2024-01-01T10:05''", THEN conjunct1] by simp
  have 2: "handleExportArchiveByTimestampRange (example_env False) ''2024-01-01T10:05''
      ''2024-01-01T10:00'' = [Alert order_alert]"
    using export_validation [where env = "example_env False" and s = "''2024-01-01T10:05''"
        and e = "''2024-01-01T10:00''" and a = 1704103500000 and b = 1704103200000,
        THEN conjunct2, THEN conjunct1, THEN mp, OF h] .
  from 1 2 show ?thesis by blast
qed

text \<open>
  Claim C10. When a timestamp string of the range query contains no \<^verbatim>\<open>.\<close>, the start is
  widened by appending \<^verbatim>\<open>:00.000Z\<close> and the end by appending \<^verbatim>\<open>:59.999Z\<close> before
  \<^verbatim>\<open>new Date\<close> reads them, and the query is sent with the ISO strings of these two
  instants as its bounds: from second 0 of the start minute to 59.999 seconds into the
  end minute.
\<close>

theorem range_query_widens:
  "(CHR ''.'' \<notin> set s \<longrightarrow> start_text s = s @ '':00.000Z'') \<and>
   (CHR ''.'' \<notin> set e \<longrightarrow> end_text e = e @ '':59.999Z'') \<and>
   (CHR ''.'' \<notin> set s \<and> CHR ''.'' \<notin> set e \<and> client env \<and>
    Date env (s @ '':00.000Z'') = Some t1 \<and> Date env (e @ '':59.999Z'') = Some t2 \<longrightarrow>
      fst (getBusinessesFromDateRange env s e)
        = [GetClient, Query (toISOString env t1) (toISOString env t2)])"
  by (simp add: start_text_def end_text_def includes_point getBusinessesFromDateRange_def Let_def)

theorem range_query_widens_witness:
  "start_text ''2024-01-01T10:00'' = ''2024-01-01T10:00:00.000Z'' \<and>
   end_text ''2024-01-01T10:05'' = ''2024-01-01T10:05:59.999Z'' \<and>
   fst (getBusinessesFromDateRange (example_env True) ''2024-01-01T10:00'' ''2024-01-01T10:05'')
     = [GetClient, Query ''2024-01-01T10:00:00.000Z'' ''2024-01-01T10:05:59.999Z'']"
proof -
  note t = range_query_widens [where env = "example_env True" and s = "''2024-01-01T10:00''"
      and e = "''2024-01-01T10:05''" and ?t1.0 = 1704103200000 and ?t2.0 = 1704103559999]
  have h: "CHR ''.'' \<notin> set ''2024-01-01T10:00'' \<and> CHR ''.'' \<notin> set ''2024-01-01T10:05'' \<and>
      client (example_env True) \<and>
      Date (example_env True) (''2024-01-01T10:00'' @ '':00.000Z'') = Some 1704103200000 \<and>
      Date (example_env True) (''2024-01-01T10:05'' @ '':59.999Z'') = Some 1704103559999"
    by (simp add: example_env_def example_Date_def)
  have 1: "start_text ''2024-01-01T10:00'' = ''2024-01-01T10:00:00.000Z''"
    using t [THEN conjunct1] by simp
  have 2: "end_text ''2024-01-01T10:05'' = ''2024-01-01T10:05:59.999Z''"
    using t [THEN conjunct2, THEN conjunct1] by simp
  have 3: "fst (getBusinessesFromDateRange (example_env True) ''2024-01-01T10:00'' ''2024-01-01T10:05'')
     = [GetClient, Query ''2024-01-01T10:00:00.000Z'' ''2024-01-01T10:05:59.999Z'']"
    using t [THEN conjunct2, THEN conjunct2, THEN mp, OF h]
    by (simp add: example_env_def example_toISOString_def)
  from 1 2 3 show ?thesis by blast
qed

section \<open>Navigation Monitor: teardown\<close>

lemmas hook_defs = run_def mount_effect_def unmount_def cleanup_effect_def new_closure_def
  addEventListener_def removeEventListener_def initial_hook_def dispatch_def
  checkIfBusinessPage_def applyWebviewInteractionFixes_def updateCurrentBusiness_def
  settle_delay_over_def check_settled_def check_then_def check_catch_def
  extract_settled_def extract_then_def extract_catch_def patch_settled_def

lemma unmount_after_mount:
  assumes "attached st" "listeners st = []" "intervals st = []"
  shows "listeners (unmount (mount_effect st)) = [(''did-start-loading'', SetIsLoadingTrue (closures st))]"
    and "intervals (unmount (mount_effect st)) = []"
  using assms
  by (simp_all add: unmount_def cleanup_effect_def mount_effect_def new_closure_def
      addEventListener_def removeEventListener_def Let_def)

lemma check_settled_ignores_ref:
  assumes "CheckCall \<in> set (pending st)"
  shows "isBusinessPage (check_settled (Resolved b) st) = b"
  using assms by (simp add: check_settled_def check_then_def Let_def)

lemma extract_settled_ignores_ref:
  assumes "ExtractCall \<in> set (pending st)"
  shows "currentBusiness (extract_settled (Resolved (RecordObject r)) st) = Some r"
  using assms by (rule extract_settled_record)

lemma load_start_listener_stays:
  assumes "attached st"
  shows "(''did-start-loading'', SetIsLoadingTrue (closures st))
           \<in> set (listeners (unmount (mount_effect st)))"
proof -
  let ?x = "(''did-start-loading'', SetIsLoadingTrue (closures st))"
  have m: "?x \<in> set (listeners (mount_effect st))" "closures (mount_effect st) = Suc (closures st)"
    "cleanup (mount_effect st) \<noteq> None"
    using assms by (simp_all add: mount_effect_def new_closure_def addEventListener_def Let_def)
  obtain i where i: "cleanup (mount_effect st) = Some i" using m(3) by auto
  show ?thesis
    using m(1,2) i
    by (simp add: unmount_def cleanup_effect_def new_closure_def removeEventListener_def Let_def)
qed

text \<open>
  Claim C6. After teardown the polling timer is cancelled and four of the five
  subscriptions of the mount are removed. The listener of \<^verbatim>\<open>did-start-loading\<close> stays
  registered: the cleanup hands \<^verbatim>\<open>removeEventListener\<close> a new arrow function, not the
  function object that was added. A load start after teardown still runs it.
\<close>

theorem load_start_listener_survives_unmount:
  "listeners (run [Mount] (initial_hook :: real hook_state)) =
     [(''did-start-loading'', SetIsLoadingTrue 0), (''did-finish-load'', HandleLoad),
      (''did-navigate'', HandleNavigationComplete), (''did-navigate-in-page'', HandleNavigationComplete),
      (''dom-ready'', ApplyWebviewInteractionFixes)] \<and>
   intervals (run [Mount] (initial_hook :: real hook_state)) = [0] \<and>
   intervals (run [Mount, Unmount] (initial_hook :: real hook_state)) = [] \<and>
   listeners (run [Mount, Unmount] (initial_hook :: real hook_state)) =
     [(''did-start-loading'', SetIsLoadingTrue 0)] \<and>
   isLoading (run [Mount, Emit ''did-finish-load'', Unmount] (initial_hook :: real hook_state)) = False \<and>
   isLoading (run [Mount, Emit ''did-finish-load'', Unmount, Emit ''did-start-loading'']
      (initial_hook :: real hook_state)) = True"
  by (simp add: hook_defs)


end
